theory Spec2Isabelle
  imports Complex_Main
begin

section \<open>JavaScript values and the builtins the scripts call\<close>

text \<open>
  Strings are lists of 8-bit characters; the examples are ASCII. The replacements of
  \<open>escapeAttr\<close> act on ASCII characters only, so they are the same on the UTF-8 bytes of
  any text; \<open>trim\<close>, \<open>charAt\<close> and \<open>toUpperCase\<close> are modelled for ASCII text only
  (the script's \<open>trim\<close> also removes Unicode white space, its \<open>charAt(0)\<close> is a UTF-16
  code unit, its \<open>toUpperCase\<close> maps every letter), so the initial shown in the icon of
  a store whose name is not ASCII is outside the model; no statement below is about it.
  A number is a finite value, an infinity or NaN; no arithmetic is done on coordinates, so
  the finite values are carried as rationals.
\<close>

datatype js_number = Finite rat | PosInfinity | NegInfinity | NaN

datatype js_value =
    JUndefined
  | JNull
  | JBool bool
  | JNumber js_number
  | JString string
  | JArray "js_value list"
  | JObject "(string \<times> js_value) list"

datatype js_error = TypeError

text \<open>
  The builtins of the browser that the map script calls and whose full definition is not
  part of the repository are parameters: \<open>JSON.parse\<close> (\<open>None\<close> when it throws a
  SyntaxError), \<open>parseFloat\<close>, and the conversion of a number to its decimal text.
\<close>

record js_env =
  JSON_parse :: "string \<Rightarrow> js_value option"
  parseFloat :: "string \<Rightarrow> js_number"
  Number_toString :: "js_number \<Rightarrow> string"

text \<open>Truthiness, as used by \<open>||\<close>, \<open>Boolean(...)\<close> and the conditional operator.\<close>

fun truthy :: "js_value \<Rightarrow> bool" where
  "truthy JUndefined = False"
| "truthy JNull = False"
| "truthy (JBool b) = b"
| "truthy (JNumber n) = (n \<noteq> Finite 0 \<and> n \<noteq> NaN)"
| "truthy (JString s) = (s \<noteq> [])"
| "truthy (JArray xs) = True"
| "truthy (JObject kvs) = True"

definition or_else :: "js_value \<Rightarrow> js_value \<Rightarrow> js_value" where
  "or_else a b = (if truthy a then a else b)"

text \<open>
  Reading one of the properties \<open>id, name, city, location, image, lat, lng\<close> of a value.
  On \<open>null\<close> and \<open>undefined\<close> the read throws. An object made by \<open>JSON.parse\<close> has the
  value of the last occurrence of the key; no prototype defines one of these seven names,
  so every other value gives \<open>undefined\<close>.
\<close>

definition own_prop :: "(string \<times> js_value) list \<Rightarrow> string \<Rightarrow> js_value" where
  "own_prop kvs k = (case map_of (rev kvs) k of None \<Rightarrow> JUndefined | Some v \<Rightarrow> v)"

fun get_prop :: "js_value \<Rightarrow> string \<Rightarrow> js_error + js_value" where
  "get_prop JUndefined k = Inl TypeError"
| "get_prop JNull k = Inl TypeError"
| "get_prop (JObject kvs) k = Inr (own_prop kvs k)"
| "get_prop v k = Inr JUndefined"

text \<open>
  \<open>Array.prototype.join\<close> on the converted elements, and the conversion of a value to a
  string (\<open>String(v)\<close>, a template literal). An object is \<open>[object Object]\<close> unless it has
  a key \<open>toString\<close> of its own, which no JSON value makes callable: the conversion throws.
\<close>

fun join_strings :: "string \<Rightarrow> string list \<Rightarrow> string" where
  "join_strings sep [] = []"
| "join_strings sep [s] = s"
| "join_strings sep (s # t # ts) = s @ sep @ join_strings sep (t # ts)"

fun sequence_err :: "('e + 'a) list \<Rightarrow> 'e + 'a list" where
  "sequence_err [] = Inr []"
| "sequence_err (r # rs) =
     (case r of Inl e \<Rightarrow> Inl e
      | Inr x \<Rightarrow> (case sequence_err rs of Inl e \<Rightarrow> Inl e | Inr xs \<Rightarrow> Inr (x # xs)))"

fun ToString :: "js_env \<Rightarrow> js_value \<Rightarrow> js_error + string" where
  "ToString env JUndefined = Inr ''undefined''"
| "ToString env JNull = Inr ''null''"
| "ToString env (JBool b) = Inr (if b then ''true'' else ''false'')"
| "ToString env (JNumber n) = Inr (Number_toString env n)"
| "ToString env (JString s) = Inr s"
| "ToString env (JArray xs) =
     (case sequence_err
        (map (\<lambda>x. if x = JUndefined \<or> x = JNull then Inr [] else ToString env x) xs) of
        Inl e \<Rightarrow> Inl e
      | Inr ss \<Rightarrow> Inr (join_strings '','' ss))"
| "ToString env (JObject kvs) =
     (if ''toString'' \<in> fst ` set kvs then Inl TypeError else Inr ''[object Object]'')"

text \<open>\<open>String.prototype.replace\<close> with a one-character global pattern.\<close>

definition replace_all :: "char \<Rightarrow> string \<Rightarrow> string \<Rightarrow> string" where
  "replace_all c r s = concat (map (\<lambda>x. if x = c then r else [x]) s)"

definition is_space :: "char \<Rightarrow> bool" where
  "is_space c = (c \<in> {CHR 0x09, CHR 0x0A, CHR 0x0B, CHR 0x0C, CHR 0x0D, CHR '' ''})"

definition trim :: "string \<Rightarrow> string" where
  "trim s = rev (dropWhile is_space (rev (dropWhile is_space s)))"

definition charAt0 :: "string \<Rightarrow> string" where
  "charAt0 s = take 1 s"

definition upper_char :: "char \<Rightarrow> char" where
  "upper_char c =
     (let n = (of_char c :: nat) in if 97 \<le> n \<and> n \<le> 122 then char_of (n - 32) else c)"

definition toUpperCase :: "string \<Rightarrow> string" where
  "toUpperCase s = map upper_char s"

section \<open>The store map (static/home-map.js)\<close>

subsection \<open>Reading and normalising the dataset\<close>

record store =
  s_id :: js_value
  s_name :: js_value
  s_city :: js_value
  s_location :: js_value
  s_image :: js_value
  s_lat :: js_value
  s_lng :: js_value

text \<open>\<open>typeof v === "string" ? parseFloat(v) : v\<close> and \<open>Number.isFinite\<close>.\<close>

fun coerce :: "js_env \<Rightarrow> js_value \<Rightarrow> js_value" where
  "coerce env (JString s) = JNumber (parseFloat env s)"
| "coerce env v = v"

fun isFinite :: "js_value \<Rightarrow> bool" where
  "isFinite (JNumber (Finite r)) = True"
| "isFinite v = False"

definition bind_err :: "'e + 'a \<Rightarrow> ('a \<Rightarrow> 'e + 'b) \<Rightarrow> 'e + 'b" where
  "bind_err m f = (case m of Inl e \<Rightarrow> Inl e | Inr x \<Rightarrow> f x)"

text \<open>The function given to \<open>stores.map\<close>: seven property reads, in the source's order.\<close>

definition normalizeStore :: "js_env \<Rightarrow> js_value \<Rightarrow> js_error + store" where
  "normalizeStore env st =
     bind_err (get_prop st ''id'') (\<lambda>i.
     bind_err (get_prop st ''name'') (\<lambda>n.
     bind_err (get_prop st ''city'') (\<lambda>c.
     bind_err (get_prop st ''location'') (\<lambda>l.
     bind_err (get_prop st ''image'') (\<lambda>im.
     bind_err (get_prop st ''lat'') (\<lambda>la.
     bind_err (get_prop st ''lng'') (\<lambda>lo.
       Inr \<lparr> s_id = i,
             s_name = or_else n (JString ''Store''),
             s_city = or_else c (JString []),
             s_location = or_else l (JString []),
             s_image = or_else im (JString []),
             s_lat = coerce env la,
             s_lng = coerce env lo \<rparr>)))))))"

definition keep :: "store \<Rightarrow> bool" where
  "keep st = (isFinite (s_lat st) \<and> isFinite (s_lng st))"

text \<open>
  \<open>stores.map(...).filter(...)\<close>. Only an array has a callable \<open>map\<close>: on every other
  parsed value the call throws a TypeError.
\<close>

definition normalizedStores :: "js_env \<Rightarrow> js_value \<Rightarrow> js_error + store list" where
  "normalizedStores env stores =
     (case stores of
        JArray xs \<Rightarrow> bind_err (sequence_err (map (normalizeStore env) xs)) (\<lambda>ss. Inr (filter keep ss))
      | _ \<Rightarrow> Inl TypeError)"

text \<open>
  Lines 5 to 12: the attribute (absent: \<open>None\<close>) or \<open>"[]"\<close>, parsed; a failed parse is
  caught, logged by \<open>console.warn\<close>, and leaves the empty list.
\<close>

definition parse_warning :: string where
  "parse_warning = ''Failed to parse homepage stores dataset''"

definition readStores :: "js_env \<Rightarrow> string option \<Rightarrow> js_value \<times> string list" where
  "readStores env attr =
     (let raw = (case attr of None \<Rightarrow> ''[]'' | Some a \<Rightarrow> if a = [] then ''[]'' else a)
      in case JSON_parse env raw of
           None \<Rightarrow> (JArray [], [parse_warning])
         | Some v \<Rightarrow> (v, []))"

subsection \<open>Markup\<close>

definition escapeAttr :: "js_env \<Rightarrow> js_value \<Rightarrow> js_error + string" where
  "escapeAttr env str =
     bind_err (ToString env (or_else str (JString []))) (\<lambda>s.
       Inr (replace_all (CHR ''>'') ''&gt;''
           (replace_all (CHR ''<'') ''&lt;''
           (replace_all (CHR 0x22) ''&quot;''
           (replace_all (CHR ''&'') ''&amp;'' s)))))"

record div_icon =
  className :: string
  html :: string
  iconSize :: "nat \<times> nat"
  iconAnchor :: "nat \<times> nat"
  popupAnchor :: "int \<times> int"

text \<open>
  \<open>buildStoreIcon\<close>. \<open>trim\<close> is a method of strings only: a name that is not a string
  (and not falsy) makes the call throw.
\<close>

definition buildStoreIcon :: "js_env \<Rightarrow> store \<Rightarrow> js_error + div_icon" where
  \<open>buildStoreIcon env st =
     (case or_else (s_name st) (JString ''S'') of
        JString n \<Rightarrow>
          (let i0 = toUpperCase (charAt0 (trim n));
               initial = (if i0 = [] then ''S'' else i0);
               hasImage = truthy (s_image st);
               extraClass = (if hasImage then '' map-pin__inner--photo'' else [])
           in bind_err
                (if hasImage then
                   bind_err (escapeAttr env (s_image st)) (\<lambda>src.
                   bind_err (escapeAttr env (s_name st)) (\<lambda>alt.
                     Inr (''<img src="'' @ src @ ''" alt="'' @ alt
                          @ '' thumbnail" loading="lazy" />'')))
                 else Inr (''<span>'' @ initial @ ''</span>''))
                (\<lambda>photoHtml.
                   Inr \<lparr> className = ''map-pin leaflet-div-icon'',
                         html = ''<div class="map-pin__inner'' @ extraClass @ ''">''
                                @ photoHtml @ ''</div>'',
                         iconSize = (34, 44),
                         iconAnchor = (17, 44),
                         popupAnchor = (0, - 42) \<rparr>))
      | _ \<Rightarrow> Inl TypeError)\<close>

text \<open>\<open>[store.location, store.city].filter(Boolean).join(", ")\<close>.\<close>

definition labelLocation :: "js_env \<Rightarrow> store \<Rightarrow> js_error + string" where
  "labelLocation env st =
     bind_err (sequence_err (map (ToString env) (filter truthy [s_location st, s_city st])))
       (\<lambda>ss. Inr (join_strings '', '' ss))"

text \<open>The template literal of the popup, before \<open>trim\<close>.\<close>

definition popupHtml :: "js_env \<Rightarrow> store \<Rightarrow> js_error + string" where
  \<open>popupHtml env st =
     bind_err (labelLocation env st) (\<lambda>label.
     bind_err (ToString env (s_name st)) (\<lambda>name.
     bind_err (ToString env (s_id st)) (\<lambda>ident.
       Inr (''\<newline>      <div class="home-map-popup">\<newline>        <strong>'' @ name
            @ ''</strong><br />\<newline>        '' @ (if label = [] then ''Goa'' else label)
            @ ''<br />\<newline>        <a href="/store/'' @ ident
            @ ''" target="_blank" rel="noopener">Open store page</a>\<newline>      </div>\<newline>    ''))))\<close>

subsection \<open>The map\<close>

type_synonym latlng = "js_value \<times> js_value"

record marker =
  latlng :: latlng
  icon :: div_icon
  popup :: "string option"

datatype view = SetView latlng nat | FitBounds "latlng list" "nat \<times> nat" nat

text \<open>
  What the script has done to the page: the warnings logged, the last view given to the
  map (\<open>None\<close> while no map exists), the markers added, and the text of the empty-state
  element when it was appended. The tile layer and the focus and blur listeners are fixed
  set-up calls and are left out.
\<close>

record map_page =
  warnings :: "string list"
  map_view :: "view option"
  markers :: "marker list"
  emptyState :: "string option"

definition GOA_CENTER :: latlng where
  "GOA_CENTER = (JNumber (Finite 15.399), JNumber (Finite 73.974))"

definition DEFAULT_ZOOM :: nat where
  "DEFAULT_ZOOM = 9"

definition empty_text :: string where
  "empty_text = ''Stores with geocoded locations will appear here soon.''"

text \<open>\<open>[store.lat, store.lng]\<close>, the position of a marker and the entry of \<open>bounds\<close>.\<close>

definition coordinate :: "store \<Rightarrow> latlng" where
  "coordinate st = (s_lat st, s_lng st)"

text \<open>
  The body of \<open>normalizedStores.forEach\<close>: the marker is added to the map before its popup
  is built, the coordinate is pushed last. A throw leaves the page as it is at that point.
\<close>

fun plot :: "js_env \<Rightarrow> store list \<Rightarrow> map_page \<times> latlng list
    \<Rightarrow> (js_error \<times> map_page) + (map_page \<times> latlng list)" where
  "plot env [] (pg, bounds) = Inr (pg, bounds)"
| "plot env (st # rest) (pg, bounds) =
     (case buildStoreIcon env st of
        Inl e \<Rightarrow> Inl (e, pg)
      | Inr ic \<Rightarrow>
          (let m = \<lparr> latlng = coordinate st, icon = ic, popup = None \<rparr>
           in case popupHtml env st of
                Inl e \<Rightarrow> Inl (e, pg\<lparr>markers := markers pg @ [m]\<rparr>)
              | Inr h \<Rightarrow>
                  plot env rest
                    (pg\<lparr>markers := markers pg @ [m\<lparr>popup := Some (trim h)\<rparr>]\<rparr>,
                     bounds @ [coordinate st])))"

text \<open>
  The script from line 5 on (the host element and the mapping library exist). The dataset
  is normalised before the map is created, so a throw there leaves no map at all. The
  loop pushes one coordinate for each store, so \<open>bounds[0]\<close> exists when the last branch
  is reached; the model has the read of an empty \<open>bounds\<close> throw.
\<close>

definition homeMap :: "js_env \<Rightarrow> string option \<Rightarrow> (js_error \<times> map_page) + map_page" where
  "homeMap env attr =
     (let (stores, warns) = readStores env attr;
          pg0 = \<lparr> warnings = warns, map_view = None, markers = [], emptyState = None \<rparr>
      in case normalizedStores env stores of
           Inl e \<Rightarrow> Inl (e, pg0)
         | Inr ns \<Rightarrow>
             (let pg1 = pg0\<lparr>map_view := Some (SetView GOA_CENTER DEFAULT_ZOOM)\<rparr>
              in if ns = [] then Inr (pg1\<lparr>emptyState := Some empty_text\<rparr>)
                 else (case plot env ns (pg1, []) of
                         Inl ep \<Rightarrow> Inl ep
                       | Inr (pg2, bounds) \<Rightarrow>
                           (if length bounds > 1
                            then Inr (pg2\<lparr>map_view := Some (FitBounds bounds (30, 30) 15)\<rparr>)
                            else (case bounds of
                                    b # _ \<Rightarrow> Inr (pg2\<lparr>map_view := Some (SetView b 13)\<rparr>)
                                  | [] \<Rightarrow> Inl (TypeError, pg2))))))"

text \<open>
  Line 3: without the host element or without the mapping library the script returns at
  once and touches nothing.
\<close>

definition homeMapScript ::
    "js_env \<Rightarrow> string option option \<Rightarrow> bool \<Rightarrow> ((js_error \<times> map_page) + map_page) option" where
  "homeMapScript env mapEl hasL =
     (case mapEl of
        None \<Rightarrow> None
      | Some attr \<Rightarrow> if hasL then Some (homeMap env attr) else None)"

subsection \<open>Store records as the data model describes them\<close>

text \<open>
  The data model of the page gives a store a textual name and textual or numeric display
  fields. \<open>text_fields\<close> says so of a normalised store: the name is a string and the id,
  city, location and image are primitive values (no array, no object).
\<close>

fun primitive :: "js_value \<Rightarrow> bool" where
  "primitive (JArray xs) = False"
| "primitive (JObject kvs) = False"
| "primitive v = True"

definition text_fields :: "store \<Rightarrow> bool" where
  "text_fields st =
     ((case s_name st of JString n \<Rightarrow> True | _ \<Rightarrow> False)
      \<and> primitive (s_id st) \<and> primitive (s_city st) \<and> primitive (s_location st)
      \<and> primitive (s_image st))"

section \<open>The sidebar (static/main.js, lines 1 to 48)\<close>

text \<open>
  Each of the three tracked elements is looked up once; \<open>None\<close> is an element the page
  does not have, \<open>Some cs\<close> an element with the class list \<open>cs\<close>. The fourth component
  is the inline \<open>overflow\<close> style of the body.
\<close>

record sidebar_page =
  mobileMenuToggle :: "string set option"
  mobileSidebar :: "string set option"
  sidebarOverlay :: "string set option"
  body_overflow :: string

definition openSidebar :: "sidebar_page \<Rightarrow> sidebar_page" where
  "openSidebar pg =
     (let pg1 = pg\<lparr>mobileSidebar := map_option (insert ''active'') (mobileSidebar pg)\<rparr>;
          pg2 = pg1\<lparr>sidebarOverlay := map_option (insert ''active'') (sidebarOverlay pg1)\<rparr>;
          pg3 = pg2\<lparr>mobileMenuToggle := map_option (insert ''active'') (mobileMenuToggle pg2)\<rparr>
      in pg3\<lparr>body_overflow := ''hidden''\<rparr>)"

definition closeSidebar :: "sidebar_page \<Rightarrow> sidebar_page" where
  "closeSidebar pg =
     (let pg1 = pg\<lparr>mobileSidebar := map_option (\<lambda>cs. cs - {''active''}) (mobileSidebar pg)\<rparr>;
          pg2 = pg1\<lparr>sidebarOverlay := map_option (\<lambda>cs. cs - {''active''}) (sidebarOverlay pg1)\<rparr>;
          pg3 = pg2\<lparr>mobileMenuToggle :=
                       map_option (\<lambda>cs. cs - {''active''}) (mobileMenuToggle pg2)\<rparr>
      in pg3\<lparr>body_overflow := []\<rparr>)"

text \<open>\<open>mobileSidebar && mobileSidebar.classList.contains("active")\<close>.\<close>

definition sidebar_active :: "sidebar_page \<Rightarrow> bool" where
  "sidebar_active pg = (case mobileSidebar pg of None \<Rightarrow> False | Some cs \<Rightarrow> ''active'' \<in> cs)"

text \<open>The click listener of the toggle button exists only when button and panel do.\<close>

definition toggleClick :: "sidebar_page \<Rightarrow> sidebar_page" where
  "toggleClick pg =
     (if mobileMenuToggle pg \<noteq> None \<and> mobileSidebar pg \<noteq> None
      then (if sidebar_active pg then closeSidebar pg else openSidebar pg)
      else pg)"

definition onResize :: "int \<Rightarrow> sidebar_page \<Rightarrow> sidebar_page" where
  "onResize innerWidth pg =
     (if innerWidth > 768 \<and> sidebar_active pg then closeSidebar pg else pg)"

section \<open>The multi-step forms (static/main.js, lines 169 to 259)\<close>

text \<open>
  A control of a step answers \<open>reportValidity()\<close> with a boolean; \<open>None\<close> is a control
  without that function. The panels, the indicators and the three buttons of a form are
  distinct elements. \<open>form_id\<close> is \<open>form.id\<close>, the empty string when the form has no id.
  \<open>dispatched\<close> are the events given to \<open>window.dispatchEvent\<close>, oldest first.
\<close>

record control =
  reportValidity :: "bool option"

record step_panel =
  classes :: "string set"
  aria_hidden :: "string option"
  controls :: "control list"

record stepchange =
  event_type :: string
  formId :: "string option"
  stepIndex :: int
  stepNumber :: int

record form =
  form_id :: string
  form_classes :: "string set"
  steps :: "step_panel list"
  progressSteps :: "string set list"
  prevBtn_disabled :: "bool option"
  nextBtn_hidden :: "bool option"
  submitBtn_hidden :: "bool option"
  activeIndex :: int
  dispatched :: "stepchange list"

fun controls_loop :: "control list \<Rightarrow> bool" where
  "controls_loop [] = True"
| "controls_loop (c # cs) =
     (case reportValidity c of
        None \<Rightarrow> controls_loop cs
      | Some ok \<Rightarrow> if \<not> ok then False else controls_loop cs)"

definition validateStep :: "step_panel option \<Rightarrow> bool" where
  "validateStep stepEl =
     (case stepEl of None \<Rightarrow> True | Some el \<Rightarrow> controls_loop (controls el))"

text \<open>\<open>classList.toggle(name, force)\<close> and the array read \<open>steps[i]\<close>.\<close>

definition toggle :: "string \<Rightarrow> bool \<Rightarrow> string set \<Rightarrow> string set" where
  "toggle c force cs = (if force then insert c cs else cs - {c})"

definition at_index :: "'a list \<Rightarrow> int \<Rightarrow> 'a option" where
  "at_index xs i = (if 0 \<le> i \<and> i < int (length xs) then Some (xs ! nat i) else None)"

definition stepN :: "form \<Rightarrow> int" where
  "stepN f = int (length (steps f))"

text \<open>
  The event built at lines 224 to 230, from the form's id and the \<open>activeIndex\<close> variable
  as it is when the event is made.
\<close>

definition stepchange_event :: "form \<Rightarrow> stepchange" where
  "stepchange_event f =
     \<lparr> event_type = ''amcho:stepchange'',
       formId = (if form_id f = [] then None else Some (form_id f)),
       stepIndex = activeIndex f,
       stepNumber = activeIndex f + 1 \<rparr>"

definition setStep :: "int \<Rightarrow> form \<Rightarrow> form" where
  "setStep newIndex f =
     (if newIndex < 0 \<or> newIndex \<ge> stepN f then f
      else
        (let f1 = f\<lparr>steps :=
                      map (\<lambda>(idx, step).
                             step\<lparr>classes := toggle ''is-active'' (int idx = newIndex) (classes step),
                                  aria_hidden :=
                                    Some (if \<not> (int idx = newIndex) then ''true'' else ''false'')\<rparr>)
                          (enumerate 0 (steps f))\<rparr>;
             f2 = f1\<lparr>progressSteps :=
                       map (\<lambda>(idx, cs).
                              toggle ''is-complete'' (int idx < newIndex)
                                (toggle ''is-active'' (int idx = newIndex) cs))
                           (enumerate 0 (progressSteps f1))\<rparr>;
             f3 = f2\<lparr>prevBtn_disabled := map_option (\<lambda>_. newIndex = 0) (prevBtn_disabled f2)\<rparr>;
             f4 = f3\<lparr>nextBtn_hidden :=
                       map_option (\<lambda>_. newIndex = stepN f - 1) (nextBtn_hidden f3)\<rparr>;
             f5 = f4\<lparr>submitBtn_hidden :=
                       map_option (\<lambda>_. newIndex \<noteq> stepN f - 1) (submitBtn_hidden f4)\<rparr>;
             f6 = f5\<lparr>activeIndex := newIndex\<rparr>
         in f6\<lparr>dispatched := dispatched f6 @ [stepchange_event f6]\<rparr>))"

text \<open>
  The body of \<open>forms.forEach\<close>: a form with at most one step is left alone (\<open>None\<close>: no
  state machine); otherwise \<open>activeIndex\<close> starts at 0 and step 0 is applied.
\<close>

definition initMultiStepForm :: "form \<Rightarrow> form option" where
  "initMultiStepForm f =
     (if length (steps f) \<le> 1 then None
      else Some (setStep 0 (f\<lparr>form_classes := insert ''multi-step-enabled'' (form_classes f),
                               activeIndex := 0\<rparr>)))"

text \<open>
  The click listener; the argument is the \<open>data-step-action\<close> value of the closest
  enclosing trigger of the click target, \<open>None\<close> when there is none.
\<close>

definition clickHandler :: "string option \<Rightarrow> form \<Rightarrow> form" where
  "clickHandler actionTrigger f =
     (case actionTrigger of
        None \<Rightarrow> f
      | Some action \<Rightarrow>
          if action = ''next'' then
            (let currentStep = at_index (steps f) (activeIndex f)
             in if \<not> validateStep currentStep then f else setStep (activeIndex f + 1) f)
          else if action = ''prev'' then setStep (activeIndex f - 1) f
          else f)"

text \<open>The submit listener: off the last step a submission becomes a "next".\<close>

definition submitHandler :: "form \<Rightarrow> form" where
  "submitHandler f =
     (if activeIndex f \<noteq> stepN f - 1 then
        (let currentStep = at_index (steps f) (activeIndex f)
         in if \<not> validateStep currentStep then f else setStep (activeIndex f + 1) f)
      else f)"

text \<open>
  What happens to an initialised form: clicks, submissions, and the user editing the
  fields of a step, which changes what its controls report and nothing else.
\<close>

datatype ui_event = Click "string option" | Submit | Edit nat "control list"

fun handle :: "ui_event \<Rightarrow> form \<Rightarrow> form" where
  "handle (Click a) f = clickHandler a f"
| "handle Submit f = submitHandler f"
| "handle (Edit i cs) f =
     (if i < length (steps f) then f\<lparr>steps := (steps f)[i := (steps f ! i)\<lparr>controls := cs\<rparr>]\<rparr>
      else f)"

fun run :: "ui_event list \<Rightarrow> form \<Rightarrow> form" where
  "run [] f = f"
| "run (e # es) f = run es (handle e f)"

section \<open>Example data\<close>

text \<open>
  A form with two steps, the first holding the given controls, as the page has it before
  the script runs, and the same form as the script leaves it after its initialisation.
\<close>

definition two_step_form :: "control list \<Rightarrow> form" where
  "two_step_form cs =
     \<lparr> form_id = ''signup'', form_classes = {},
       steps = [\<lparr> classes = {}, aria_hidden = None, controls = cs \<rparr>,
                \<lparr> classes = {}, aria_hidden = None, controls = [] \<rparr>],
       progressSteps = [{}, {}],
       prevBtn_disabled = Some False, nextBtn_hidden = Some False, submitBtn_hidden = Some False,
       activeIndex = 0, dispatched = [] \<rparr>"

definition two_step_started :: "control list \<Rightarrow> form" where
  "two_step_started cs =
     \<lparr> form_id = ''signup'', form_classes = {''multi-step-enabled''},
       steps = [\<lparr> classes = {''is-active''}, aria_hidden = Some ''false'', controls = cs \<rparr>,
                \<lparr> classes = {}, aria_hidden = Some ''true'', controls = [] \<rparr>],
       progressSteps = [{''is-active''}, {}],
       prevBtn_disabled = Some True, nextBtn_hidden = Some False, submitBtn_hidden = Some True,
       activeIndex = 0,
       dispatched = [\<lparr> event_type = ''amcho:stepchange'', formId = Some ''signup'',
                       stepIndex = 0, stepNumber = 1 \<rparr>] \<rparr>"


text \<open>A page with the three tracked elements, the sidebar closed.\<close>

definition example_sidebar :: sidebar_page where
  "example_sidebar =
     \<lparr> mobileMenuToggle = Some {''menu-toggle''}, mobileSidebar = Some {''sidebar''},
       sidebarOverlay = Some {}, body_overflow = [] \<rparr>"

text \<open>
  Five datasets: the example of the specification; the same store followed by a second
  one with an image; the second followed by a store whose latitude is not numeric; the
  second followed by a store whose name is a number; and that last store alone. A sixth
  store has no latitude.
\<close>

definition one_store_json :: string where
  \<open>one_store_json = ''[{"id":"s1","name":"<b>X</b>","lat":"15.4","lng":"73.8"}]''\<close>

definition store_s1 :: "(string \<times> js_value) list" where
  "store_s1 = [(''id'', JString ''s1''), (''name'', JString ''<b>X</b>''),
               (''lat'', JString ''15.4''), (''lng'', JString ''73.8'')]"

definition two_stores_json :: string where
  \<open>two_stores_json = ''[{"id":"s1","name":"<b>X</b>","lat":"15.4","lng":"73.8"},{"id":"s2","name":"Y & Z","image":"/u/y.png","city":"Panaji","lat":15.5,"lng":73.9}]''\<close>

definition store_s2 :: "(string \<times> js_value) list" where
  "store_s2 = [(''id'', JString ''s2''), (''name'', JString ''Y & Z''),
               (''image'', JString ''/u/y.png''), (''city'', JString ''Panaji''),
               (''lat'', JNumber (Finite 15.5)), (''lng'', JNumber (Finite 73.9))]"

definition mixed_stores_json :: string where
  \<open>mixed_stores_json = ''[{"id":"s2","name":"Y & Z","image":"/u/y.png","city":"Panaji","lat":15.5,"lng":73.9},{"id":"s3","name":"W","lat":"north","lng":"73.8"}]''\<close>

definition store_s3 :: "(string \<times> js_value) list" where
  "store_s3 = [(''id'', JString ''s3''), (''name'', JString ''W''),
               (''lat'', JString ''north''), (''lng'', JString ''73.8'')]"

definition numeric_name_json :: string where
  \<open>numeric_name_json = ''[{"id":"s2","name":"Y & Z","image":"/u/y.png","city":"Panaji","lat":15.5,"lng":73.9},{"id":"s4","name":5,"lat":15.6,"lng":73.7}]''\<close>

definition store_s4 :: "(string \<times> js_value) list" where
  "store_s4 = [(''id'', JString ''s4''), (''name'', JNumber (Finite 5)),
               (''lat'', JNumber (Finite 15.6)), (''lng'', JNumber (Finite 73.7))]"

definition lone_numeric_json :: string where
  \<open>lone_numeric_json = ''[{"id":"s4","name":5,"lat":15.6,"lng":73.7}]''\<close>

definition store_s5 :: "(string \<times> js_value) list" where
  "store_s5 = [(''id'', JString ''s5''), (''name'', JString ''V''), (''lng'', JString ''73.8'')]"

text \<open>
  The values of the builtins on the texts of these examples: \<open>JSON.parse\<close> on the five
  datasets, on \<open>[]\<close> and on \<open>{}\<close> (on any other text of the examples it throws), and
  \<open>parseFloat\<close> on the coordinate texts. No example converts a number to text.
\<close>

definition example_env :: js_env where
  "example_env =
     \<lparr> JSON_parse = (\<lambda>s. if s = ''[]'' then Some (JArray [])
                         else if s = ''{}'' then Some (JObject [])
                         else if s = one_store_json then Some (JArray [JObject store_s1])
                         else if s = two_stores_json
                           then Some (JArray [JObject store_s1, JObject store_s2])
                         else if s = mixed_stores_json
                           then Some (JArray [JObject store_s2, JObject store_s3])
                         else if s = numeric_name_json
                           then Some (JArray [JObject store_s2, JObject store_s4])
                         else if s = lone_numeric_json then Some (JArray [JObject store_s4])
                         else None),
       parseFloat = (\<lambda>s. if s = ''15.4'' then Finite 15.4
                         else if s = ''73.8'' then Finite 73.8
                         else NaN),
       Number_toString = (\<lambda>n. []) \<rparr>"

text \<open>The first, second, fourth and sixth store as \<open>normalizeStore\<close> returns them.\<close>

definition normal_s1 :: store where
  "normal_s1 = \<lparr> s_id = JString ''s1'', s_name = JString ''<b>X</b>'', s_city = JString [],
       s_location = JString [], s_image = JString [],
       s_lat = JNumber (Finite 15.4), s_lng = JNumber (Finite 73.8) \<rparr>"

definition normal_s2 :: store where
  "normal_s2 = \<lparr> s_id = JString ''s2'', s_name = JString ''Y & Z'', s_city = JString ''Panaji'',
       s_location = JString [], s_image = JString ''/u/y.png'',
       s_lat = JNumber (Finite 15.5), s_lng = JNumber (Finite 73.9) \<rparr>"

definition normal_s4 :: store where
  "normal_s4 = \<lparr> s_id = JString ''s4'', s_name = JNumber (Finite 5), s_city = JString [],
       s_location = JString [], s_image = JString [],
       s_lat = JNumber (Finite 15.6), s_lng = JNumber (Finite 73.7) \<rparr>"

definition normal_s5 :: store where
  "normal_s5 = \<lparr> s_id = JString ''s5'', s_name = JString ''V'', s_city = JString [],
       s_location = JString [], s_image = JString [],
       s_lat = JUndefined, s_lng = JNumber (Finite 73.8) \<rparr>"

section \<open>Properties of the store map\<close>

subsection \<open>Normalisation and markup\<close>

lemma bind_err_Inr [simp]: "bind_err (Inr x) f = f x"
  by (simp add: bind_err_def)

lemma bind_err_Inl [simp]: "bind_err (Inl e) f = Inl e"
  by (simp add: bind_err_def)

lemma sequence_err_map_Inr: "sequence_err (map (\<lambda>x. Inr (g x)) xs) = Inr (map g xs)"
  by (induction xs) simp_all

lemma normalize_object:
  "normalizeStore env (JObject kvs) =
     Inr \<lparr> s_id = own_prop kvs ''id'',
           s_name = or_else (own_prop kvs ''name'') (JString ''Store''),
           s_city = or_else (own_prop kvs ''city'') (JString []),
           s_location = or_else (own_prop kvs ''location'') (JString []),
           s_image = or_else (own_prop kvs ''image'') (JString []),
           s_lat = coerce env (own_prop kvs ''lat''),
           s_lng = coerce env (own_prop kvs ''lng'') \<rparr>"
  by (simp add: normalizeStore_def)

lemma normalize_null: "normalizeStore env JNull = Inl TypeError" "normalizeStore env JUndefined = Inl TypeError"
  by (simp_all add: normalizeStore_def)

lemma sequence_normalize_objects:
  "sequence_err (map (normalizeStore env) (map JObject rs)) =
     Inr (map (\<lambda>kvs. \<lparr> s_id = own_prop kvs ''id'',
           s_name = or_else (own_prop kvs ''name'') (JString ''Store''),
           s_city = or_else (own_prop kvs ''city'') (JString []),
           s_location = or_else (own_prop kvs ''location'') (JString []),
           s_image = or_else (own_prop kvs ''image'') (JString []),
           s_lat = coerce env (own_prop kvs ''lat''),
           s_lng = coerce env (own_prop kvs ''lng'') \<rparr>) rs)"
  by (induction rs) (simp_all add: normalize_object)

lemma isFinite_iff: "isFinite v = (\<exists>r. v = JNumber (Finite r))"
  by (cases v rule: isFinite.cases) simp_all

lemma keep_iff:
  "keep st = (\<exists>a b. s_lat st = JNumber (Finite a) \<and> s_lng st = JNumber (Finite b))"
  by (auto simp: keep_def isFinite_iff)

lemma ToString_primitive: "primitive v \<Longrightarrow> \<exists>s. ToString env v = Inr s"
  by (cases v) simp_all

lemma primitive_or_else: "primitive a \<Longrightarrow> primitive b \<Longrightarrow> primitive (or_else a b)"
  by (simp add: or_else_def)

lemma escapeAttr_primitive: "primitive v \<Longrightarrow> \<exists>s. escapeAttr env v = Inr s"
proof -
  assume "primitive v"
  then have "primitive (or_else v (JString []))" by (simp add: primitive_or_else)
  then obtain s where "ToString env (or_else v (JString [])) = Inr s"
    using ToString_primitive by blast
  then show ?thesis by (simp add: escapeAttr_def)
qed

lemma set_replace_all:
  "set (replace_all c r s) = (set s - {c}) \<union> (if c \<in> set s then set r else {})"
  by (induction s) (auto simp: replace_all_def)

lemma escapeAttr_escapes:
  "escapeAttr env v = Inr s \<Longrightarrow>
     CHR ''<'' \<notin> set s \<and> CHR ''>'' \<notin> set s \<and> CHR 0x22 \<notin> set s"
  by (cases "ToString env (or_else v (JString []))")
     (auto simp: escapeAttr_def set_replace_all split: if_splits)

lemma buildStoreIcon_text: "text_fields st \<Longrightarrow> \<exists>ic. buildStoreIcon env st = Inr ic"
proof -
  assume tf: "text_fields st"
  then obtain n where n: "s_name st = JString n"
    by (auto simp: text_fields_def split: js_value.splits)
  from tf have "primitive (s_image st)" by (simp add: text_fields_def)
  then obtain src where src: "escapeAttr env (s_image st) = Inr src"
    using escapeAttr_primitive by blast
  from n obtain alt where alt: "escapeAttr env (s_name st) = Inr alt"
    using escapeAttr_primitive[of "s_name st" env] by auto
  show ?thesis
    using n src alt by (cases "n = []") (simp_all add: buildStoreIcon_def or_else_def Let_def)
qed

lemma labelLocation_text: "text_fields st \<Longrightarrow> \<exists>l. labelLocation env st = Inr l"
proof -
  assume tf: "text_fields st"
  then obtain a b where "ToString env (s_location st) = Inr a" "ToString env (s_city st) = Inr b"
    using ToString_primitive[of "s_location st" env] ToString_primitive[of "s_city st" env]
    by (auto simp: text_fields_def)
  then show ?thesis by (simp add: labelLocation_def)
qed

lemma popupHtml_text: "text_fields st \<Longrightarrow> \<exists>h. popupHtml env st = Inr h"
proof -
  assume tf: "text_fields st"
  then obtain l where l: "labelLocation env st = Inr l" using labelLocation_text by blast
  from tf obtain n where n: "s_name st = JString n"
    by (auto simp: text_fields_def split: js_value.splits)
  from tf obtain i where i: "ToString env (s_id st) = Inr i"
    using ToString_primitive[of "s_id st" env] by (auto simp: text_fields_def)
  show ?thesis using l n i by (simp add: popupHtml_def)
qed

lemma popupHtml_raw_name:
  "text_fields st \<Longrightarrow> s_name st = JString n \<Longrightarrow>
     \<exists>pre post. popupHtml env st = Inr (pre @ ''<strong>'' @ n @ ''</strong>'' @ post)"
proof -
  assume tf: "text_fields st" and n: "s_name st = JString n"
  obtain l where l: "labelLocation env st = Inr l" using labelLocation_text[OF tf] by blast
  from tf obtain i where i: "ToString env (s_id st) = Inr i"
    using ToString_primitive[of "s_id st" env] by (auto simp: text_fields_def)
  have h: \<open>popupHtml env st =
      Inr (''\<newline>      <div class="home-map-popup">\<newline>        '' @ ''<strong>'' @ n @ ''</strong>''
           @ (''<br />\<newline>        '' @ (if l = [] then ''Goa'' else l)
              @ ''<br />\<newline>        <a href="/store/'' @ i
              @ ''" target="_blank" rel="noopener">Open store page</a>\<newline>      </div>\<newline>    ''))\<close>
    using l n i by (simp add: popupHtml_def)
  show ?thesis by (intro exI) (rule h)
qed

subsection \<open>The markers and the run of the script\<close>

lemma plot_text:
  "\<forall>st\<in>set ns. text_fields st \<Longrightarrow>
   \<exists>pg'. plot env ns (pg, bs) = Inr (pg', bs @ map coordinate ns)
       \<and> map latlng (markers pg') = map latlng (markers pg) @ map coordinate ns
       \<and> map_view pg' = map_view pg \<and> warnings pg' = warnings pg
       \<and> emptyState pg' = emptyState pg"
proof (induction ns arbitrary: pg bs)
  case Nil
  then show ?case by simp
next
  case (Cons st ns)
  then have tf: "text_fields st" and rest: "\<forall>s\<in>set ns. text_fields s" by simp_all
  obtain ic where ic: "buildStoreIcon env st = Inr ic" using buildStoreIcon_text[OF tf] by blast
  obtain h where h: "popupHtml env st = Inr h" using popupHtml_text[OF tf] by blast
  let ?pg1 = "pg\<lparr>markers := markers pg @ [\<lparr>latlng = coordinate st, icon = ic, popup = Some (trim h)\<rparr>]\<rparr>"
  from Cons.IH[OF rest, of ?pg1 "bs @ [coordinate st]"]
  obtain pg' where p: "plot env ns (?pg1, bs @ [coordinate st]) = Inr (pg', (bs @ [coordinate st]) @ map coordinate ns)"
     "map latlng (markers pg') = map latlng (markers ?pg1) @ map coordinate ns"
     "map_view pg' = map_view ?pg1" "warnings pg' = warnings ?pg1" "emptyState pg' = emptyState ?pg1"
    by blast
  have "plot env (st # ns) (pg, bs) = plot env ns (?pg1, bs @ [coordinate st])"
    using ic h by (simp add: Let_def)
  then show ?case using p by (intro exI[of _ pg']) simp
qed

lemma plot_markers:
  "(plot env ns (pg, bs) = Inr (pg', bs') \<longrightarrow>
      map latlng (markers pg') = map latlng (markers pg) @ map coordinate ns
      \<and> bs' = bs @ map coordinate ns)
   \<and> (plot env ns (pg, bs) = Inl (e, pg') \<longrightarrow>
      (\<exists>k. map latlng (markers pg') = map latlng (markers pg) @ take k (map coordinate ns)))"
proof (induction ns arbitrary: pg bs)
  case Nil
  then show ?case by simp
next
  case (Cons st ns)
  show ?case
  proof (cases "buildStoreIcon env st")
    case (Inl err)
    then show ?thesis by (auto intro: exI[of _ 0])
  next
    case (Inr ic)
    note ic = this
    show ?thesis
    proof (cases "popupHtml env st")
      case (Inl err)
      then show ?thesis using ic by (auto simp: Let_def intro: exI[of _ 1])
    next
      case (Inr h)
      let ?pg1 = "pg\<lparr>markers := markers pg @ [\<lparr>latlng = coordinate st, icon = ic, popup = Some (trim h)\<rparr>]\<rparr>"
      have step: "plot env (st # ns) (pg, bs) = plot env ns (?pg1, bs @ [coordinate st])"
        using ic Inr by (simp add: Let_def)
      have ih: "(plot env ns (?pg1, bs @ [coordinate st]) = Inr (pg', bs') \<longrightarrow>
          map latlng (markers pg') = map latlng (markers ?pg1) @ map coordinate ns
          \<and> bs' = (bs @ [coordinate st]) @ map coordinate ns)
        \<and> (plot env ns (?pg1, bs @ [coordinate st]) = Inl (e, pg') \<longrightarrow>
          (\<exists>k. map latlng (markers pg') = map latlng (markers ?pg1) @ take k (map coordinate ns)))"
        by (rule Cons.IH)
      show ?thesis
      proof (rule conjI; rule impI)
        assume "plot env (st # ns) (pg, bs) = Inr (pg', bs')"
        then show "map latlng (markers pg') = map latlng (markers pg) @ map coordinate (st # ns)
          \<and> bs' = bs @ map coordinate (st # ns)"
          using ih step by simp
      next
        assume "plot env (st # ns) (pg, bs) = Inl (e, pg')"
        then obtain k where "map latlng (markers pg') = map latlng (markers ?pg1) @ take k (map coordinate ns)"
          using ih step by auto
        then have "map latlng (markers pg') = map latlng (markers pg) @ take (Suc k) (map coordinate (st # ns))"
          by simp
        then show "\<exists>k. map latlng (markers pg') = map latlng (markers pg) @ take k (map coordinate (st # ns))"
          by blast
      qed
    qed
  qed
qed

lemma homeMap_steps:
  assumes "readStores env attr = (stores, w)" and "normalizedStores env stores = Inr ns"
  shows "homeMap env attr =
     (let pg1 = \<lparr> warnings = w, map_view = Some (SetView GOA_CENTER DEFAULT_ZOOM), markers = [],
                   emptyState = None \<rparr>
      in if ns = [] then Inr (pg1\<lparr>emptyState := Some empty_text\<rparr>)
         else (case plot env ns (pg1, []) of
                 Inl ep \<Rightarrow> Inl ep
               | Inr (pg2, bounds) \<Rightarrow>
                   (if length bounds > 1
                    then Inr (pg2\<lparr>map_view := Some (FitBounds bounds (30, 30) 15)\<rparr>)
                    else (case bounds of
                            b # _ \<Rightarrow> Inr (pg2\<lparr>map_view := Some (SetView b 13)\<rparr>)
                          | [] \<Rightarrow> Inl (TypeError, pg2)))))"
  using assms by (simp add: homeMap_def Let_def)

lemma homeMap_throws_early:
  assumes "readStores env attr = (stores, w)" and "normalizedStores env stores = Inl e"
  shows "homeMap env attr = Inl (e, \<lparr> warnings = w, map_view = None, markers = [], emptyState = None \<rparr>)"
  using assms by (simp add: homeMap_def Let_def)

lemma homeMap_text:
  assumes r: "readStores env attr = (stores, w)" and n: "normalizedStores env stores = Inr ns"
    and t: "\<forall>st\<in>set ns. text_fields st" and ne: "ns \<noteq> []"
  shows "\<exists>pg. homeMap env attr = Inr pg
           \<and> map latlng (markers pg) = map coordinate ns
           \<and> map_view pg = Some (if length ns > 1 then FitBounds (map coordinate ns) (30, 30) 15
                                 else SetView (coordinate (hd ns)) 13)
           \<and> warnings pg = w \<and> emptyState pg = None"
proof -
  let ?pg1 = "\<lparr> warnings = w, map_view = Some (SetView GOA_CENTER DEFAULT_ZOOM), markers = [],
                emptyState = None \<rparr>"
  obtain pg' where p: "plot env ns (?pg1, []) = Inr (pg', [] @ map coordinate ns)"
    "map latlng (markers pg') = map latlng (markers ?pg1) @ map coordinate ns"
    "warnings pg' = warnings ?pg1" "emptyState pg' = emptyState ?pg1"
    using plot_text[OF t, of env ?pg1 "[]"] by blast
  show ?thesis
  proof (cases "length ns > 1")
    case True
    then show ?thesis using homeMap_steps[OF r n] ne p
      by (intro exI[of _ "pg'\<lparr>map_view := Some (FitBounds (map coordinate ns) (30, 30) 15)\<rparr>"]) simp
  next
    case False
    with ne obtain st where st: "ns = [st]" by (cases ns) auto
    then show ?thesis using homeMap_steps[OF r n] p
      by (intro exI[of _ "pg'\<lparr>map_view := Some (SetView (coordinate st) 13)\<rparr>"]) simp
  qed
qed

lemma homeMap_markers:
  assumes r: "readStores env attr = (stores, w)" and n: "normalizedStores env stores = Inr ns"
  shows "(homeMap env attr = Inr pg \<longrightarrow> map latlng (markers pg) = map coordinate ns)
       \<and> (homeMap env attr = Inl (e, pg) \<longrightarrow> (\<exists>k. map latlng (markers pg) = take k (map coordinate ns)))"
proof (cases "ns = []")
  case True
  then show ?thesis using homeMap_steps[OF r n] by auto
next
  case False
  let ?pg1 = "\<lparr> warnings = w, map_view = Some (SetView GOA_CENTER DEFAULT_ZOOM), markers = [],
                emptyState = None \<rparr>"
  show ?thesis
  proof (cases "plot env ns (?pg1, [])")
    case (Inl ep)
    obtain e' pg' where ep: "ep = (e', pg')" by (cases ep)
    have "\<exists>k. map latlng (markers pg') = map latlng (markers ?pg1) @ take k (map coordinate ns)"
      using plot_markers[of env ns ?pg1 "[]" pg' "[]" e'] Inl ep by simp
    then show ?thesis using homeMap_steps[OF r n] False Inl ep by auto
  next
    case (Inr pb)
    obtain pg2 bs where pb: "pb = (pg2, bs)" by (cases pb)
    have m: "map latlng (markers pg2) = map latlng (markers ?pg1) @ map coordinate ns
             \<and> bs = [] @ map coordinate ns"
      using plot_markers[of env ns ?pg1 "[]" pg2 bs e] Inr pb by simp
    then have bne: "bs \<noteq> []" using False by simp
    show ?thesis
    proof (cases "length bs > 1")
      case True
      then show ?thesis using homeMap_steps[OF r n] False Inr pb m by auto
    next
      case F: False
      from bne obtain b bs' where "bs = b # bs'" by (cases bs) auto
      then show ?thesis using homeMap_steps[OF r n] False Inr pb m F by auto
    qed
  qed
qed

lemma readStores_parsed:
  "JSON_parse env a = Some v \<Longrightarrow> a \<noteq> [] \<Longrightarrow> readStores env (Some a) = (v, [])"
  by (simp add: readStores_def)

lemma homeMap_unparsable:
  "JSON_parse env a = None \<Longrightarrow> a \<noteq> [] \<Longrightarrow>
     homeMap env (Some a) =
       Inr \<lparr> warnings = [parse_warning], map_view = Some (SetView GOA_CENTER DEFAULT_ZOOM),
             markers = [], emptyState = Some empty_text \<rparr>"
  by (simp add: homeMap_def readStores_def normalizedStores_def Let_def)

lemma homeMap_absent:
  "JSON_parse env ''[]'' = Some (JArray []) \<Longrightarrow> attr = None \<or> attr = Some [] \<Longrightarrow>
     homeMap env attr =
       Inr \<lparr> warnings = [], map_view = Some (SetView GOA_CENTER DEFAULT_ZOOM),
             markers = [], emptyState = Some empty_text \<rparr>"
  by (auto simp: homeMap_def readStores_def normalizedStores_def Let_def)

lemma normalizedStores_not_array: "\<forall>xs. v \<noteq> JArray xs \<Longrightarrow> normalizedStores env v = Inl TypeError"
  by (cases v) (simp_all add: normalizedStores_def)

lemma non_text_name_throws:
  "(\<forall>n. s_name st \<noteq> JString n) \<Longrightarrow> truthy (s_name st) \<Longrightarrow> buildStoreIcon env st = Inl TypeError"
  by (cases "s_name st") (simp_all add: buildStoreIcon_def or_else_def)

lemma null_record_throws: "normalizedStores env (JArray (xs @ JNull # ys)) = Inl TypeError"
proof -
  have "sequence_err (map (normalizeStore env) (xs @ JNull # ys)) = Inl TypeError"
    by (induction xs) (auto simp: normalize_null split: sum.splits intro: js_error.exhaust)
  then show ?thesis by (simp add: normalizedStores_def)
qed

subsection \<open>The examples, evaluated\<close>

lemma read_one: "readStores example_env (Some one_store_json) = (JArray [JObject store_s1], [])"
  by (simp add: readStores_def example_env_def one_store_json_def)


lemma parse_mixed:
  "JSON_parse example_env mixed_stores_json = Some (JArray (map JObject [store_s2, store_s3]))"
  by (simp add: example_env_def one_store_json_def two_stores_json_def mixed_stores_json_def)

lemma normalize_s1: "normalizeStore example_env (JObject store_s1) = Inr normal_s1"
  by (simp add: normalize_object own_prop_def store_s1_def or_else_def example_env_def normal_s1_def)

lemma normalize_s2: "normalizeStore example_env (JObject store_s2) = Inr normal_s2"
  by (simp add: normalize_object own_prop_def store_s2_def or_else_def example_env_def normal_s2_def)

lemma normalize_s3:
  "normalizeStore example_env (JObject store_s3) =
     Inr \<lparr> s_id = JString ''s3'', s_name = JString ''W'', s_city = JString [],
       s_location = JString [], s_image = JString [],
       s_lat = JNumber NaN, s_lng = JNumber (Finite 73.8) \<rparr>"
  by (simp add: normalize_object own_prop_def store_s3_def or_else_def example_env_def)

lemma normalized_one: "normalizedStores example_env (JArray [JObject store_s1]) = Inr [normal_s1]"
  by (simp add: normalizedStores_def normalize_s1) (simp add: keep_def normal_s1_def)


lemma normalized_mixed:
  "normalizedStores example_env (JArray (map JObject [store_s2, store_s3])) = Inr [normal_s2]"
  by (simp add: normalizedStores_def normalize_s2 normalize_s3) (simp add: keep_def normal_s2_def)

lemma text_s1: "text_fields normal_s1" by (simp add: text_fields_def normal_s1_def)

lemma text_s2: "text_fields normal_s2" by (simp add: text_fields_def normal_s2_def)

lemma parse_numeric_name:
  "JSON_parse example_env numeric_name_json = Some (JArray (map JObject [store_s2, store_s4]))"
  by (simp add: example_env_def one_store_json_def two_stores_json_def mixed_stores_json_def
      numeric_name_json_def)


lemma parse_one:
  "JSON_parse example_env one_store_json = Some (JArray (map JObject [store_s1]))"
  by (simp add: example_env_def one_store_json_def)

lemma normalize_s5: "normalizeStore example_env (JObject store_s5) = Inr normal_s5"
  by (simp add: normalize_object own_prop_def store_s5_def or_else_def example_env_def normal_s5_def)

lemma raw_coordinates:
  "own_prop store_s1 ''lat'' = JString ''15.4''" "own_prop store_s1 ''lng'' = JString ''73.8''"
  "own_prop store_s3 ''lat'' = JString ''north''" "own_prop store_s5 ''lat'' = JUndefined"
  by (simp_all add: own_prop_def store_s1_def store_s3_def store_s5_def)

lemma example_parseFloat:
  "parseFloat example_env ''15.4'' = Finite 15.4" "parseFloat example_env ''73.8'' = Finite 73.8"
  "parseFloat example_env ''north'' = NaN"
  by (simp_all add: example_env_def)

lemma normalize_s4: "normalizeStore example_env (JObject store_s4) = Inr normal_s4"
  by (simp add: normalize_object own_prop_def store_s4_def or_else_def example_env_def normal_s4_def)

lemma normalized_numeric_name:
  "normalizedStores example_env (JArray (map JObject [store_s2, store_s4])) = Inr [normal_s2, normal_s4]"
  by (simp add: normalizedStores_def normalize_s2 normalize_s4)
     (simp add: keep_def normal_s2_def normal_s4_def)

lemma numeric_name_throws:
  "\<exists>pg. homeMap example_env (Some numeric_name_json) = Inl (TypeError, pg)"
proof -
  have ne: "numeric_name_json \<noteq> []" by (simp add: numeric_name_json_def)
  have r: "readStores example_env (Some numeric_name_json)
             = (JArray (map JObject [store_s2, store_s4]), [])"
    using readStores_parsed[OF parse_numeric_name ne] .
  obtain ic where ic: "buildStoreIcon example_env normal_s2 = Inr ic"
    using buildStoreIcon_text[OF text_s2] by blast
  obtain h where h: "popupHtml example_env normal_s2 = Inr h"
    using popupHtml_text[OF text_s2] by blast
  have b: "buildStoreIcon example_env normal_s4 = Inl TypeError"
    by (rule non_text_name_throws) (simp_all add: normal_s4_def)
  show ?thesis
    using homeMap_steps[OF r normalized_numeric_name] ic h b by (simp add: Let_def)
qed

subsection \<open>Coercion and filtering of the coordinates\<close>

lemma coerce_string: "coerce env (JString t) = JNumber (parseFloat env t)"
  by simp

lemma coerce_other: "\<forall>t. v \<noteq> JString t \<Longrightarrow> coerce env v = v"
  by (cases v) simp_all

lemma coerce_finite_iff:
  "(\<exists>a. coerce env v = JNumber (Finite a)) \<longleftrightarrow>
     ((\<exists>t a. v = JString t \<and> parseFloat env t = Finite a) \<or> (\<exists>a. v = JNumber (Finite a)))"
  by (cases v) auto

text \<open>
  Claim C5. For every array of raw store objects, each object is normalised without a
  throw. A \<open>lat\<close> or \<open>lng\<close> that arrives as the string \<open>t\<close> becomes the number
  \<open>parseFloat(t)\<close>; one that is not a string stays as it is. A store is kept if and only if
  its two coordinates are then finite numbers, that is, if and only if each raw coordinate
  is a string that \<open>parseFloat\<close> reads as a finite number, or a finite number; so a store
  with a missing coordinate is dropped. The kept stores keep their order. The markers put
  on the map, whether the script runs to its end or throws on the way, sit on coordinates
  of kept stores only, one for each kept store when it runs to its end.
\<close>

theorem coordinates_coerced_and_filtered:
  "\<exists>ss. sequence_err (map (normalizeStore env) (map JObject rs)) = Inr ss \<and> length ss = length rs
     \<and> normalizedStores env (JArray (map JObject rs)) = Inr (filter keep ss)
     \<and> (\<forall>i<length rs.
           (\<forall>t. own_prop (rs ! i) ''lat'' = JString t \<longrightarrow>
                 s_lat (ss ! i) = JNumber (parseFloat env t))
         \<and> (\<forall>t. own_prop (rs ! i) ''lng'' = JString t \<longrightarrow>
                 s_lng (ss ! i) = JNumber (parseFloat env t))
         \<and> ((\<forall>t. own_prop (rs ! i) ''lat'' \<noteq> JString t) \<longrightarrow>
                 s_lat (ss ! i) = own_prop (rs ! i) ''lat'')
         \<and> ((\<forall>t. own_prop (rs ! i) ''lng'' \<noteq> JString t) \<longrightarrow>
                 s_lng (ss ! i) = own_prop (rs ! i) ''lng'')
         \<and> (keep (ss ! i) \<longleftrightarrow>
              (\<exists>a b. s_lat (ss ! i) = JNumber (Finite a) \<and> s_lng (ss ! i) = JNumber (Finite b)))
         \<and> (keep (ss ! i) \<longleftrightarrow>
              ((\<exists>t a. own_prop (rs ! i) ''lat'' = JString t \<and> parseFloat env t = Finite a)
                 \<or> (\<exists>a. own_prop (rs ! i) ''lat'' = JNumber (Finite a)))
              \<and> ((\<exists>t b. own_prop (rs ! i) ''lng'' = JString t \<and> parseFloat env t = Finite b)
                 \<or> (\<exists>b. own_prop (rs ! i) ''lng'' = JNumber (Finite b))))
         \<and> (own_prop (rs ! i) ''lat'' = JUndefined \<or> own_prop (rs ! i) ''lng'' = JUndefined
               \<longrightarrow> \<not> keep (ss ! i)))
     \<and> (\<forall>a pg e. JSON_parse env a = Some (JArray (map JObject rs)) \<and> a \<noteq> [] \<longrightarrow>
           (homeMap env (Some a) = Inr pg \<longrightarrow>
              map latlng (markers pg) = map coordinate (filter keep ss))
         \<and> (homeMap env (Some a) = Inl (e, pg) \<longrightarrow>
              (\<exists>k. map latlng (markers pg) = take k (map coordinate (filter keep ss)))))"
proof -
  let ?n = "\<lambda>kvs. \<lparr> s_id = own_prop kvs ''id'',
           s_name = or_else (own_prop kvs ''name'') (JString ''Store''),
           s_city = or_else (own_prop kvs ''city'') (JString []),
           s_location = or_else (own_prop kvs ''location'') (JString []),
           s_image = or_else (own_prop kvs ''image'') (JString []),
           s_lat = coerce env (own_prop kvs ''lat''),
           s_lng = coerce env (own_prop kvs ''lng'') \<rparr>"
  let ?ss = "map ?n rs"
  have s: "sequence_err (map (normalizeStore env) (map JObject rs)) = Inr ?ss"
    by (rule sequence_normalize_objects)
  have ns: "normalizedStores env (JArray (map JObject rs)) = Inr (filter keep ?ss)"
    using s by (simp add: normalizedStores_def)
  have k: "keep (?n kvs) \<longleftrightarrow>
              ((\<exists>t a. own_prop kvs ''lat'' = JString t \<and> parseFloat env t = Finite a)
                 \<or> (\<exists>a. own_prop kvs ''lat'' = JNumber (Finite a)))
              \<and> ((\<exists>t b. own_prop kvs ''lng'' = JString t \<and> parseFloat env t = Finite b)
                 \<or> (\<exists>b. own_prop kvs ''lng'' = JNumber (Finite b)))" for kvs
    using coerce_finite_iff[of env "own_prop kvs ''lat''"]
          coerce_finite_iff[of env "own_prop kvs ''lng''"]
    by (simp add: keep_def isFinite_iff)
  have u: "own_prop kvs ''lat'' = JUndefined \<or> own_prop kvs ''lng'' = JUndefined
             \<longrightarrow> \<not> keep (?n kvs)" for kvs
    by (auto simp: keep_def)
  have c: "\<forall>i<length rs.
           (\<forall>t. own_prop (rs ! i) ''lat'' = JString t \<longrightarrow>
                 s_lat (?ss ! i) = JNumber (parseFloat env t))
         \<and> (\<forall>t. own_prop (rs ! i) ''lng'' = JString t \<longrightarrow>
                 s_lng (?ss ! i) = JNumber (parseFloat env t))
         \<and> ((\<forall>t. own_prop (rs ! i) ''lat'' \<noteq> JString t) \<longrightarrow>
                 s_lat (?ss ! i) = own_prop (rs ! i) ''lat'')
         \<and> ((\<forall>t. own_prop (rs ! i) ''lng'' \<noteq> JString t) \<longrightarrow>
                 s_lng (?ss ! i) = own_prop (rs ! i) ''lng'')
         \<and> (keep (?ss ! i) \<longleftrightarrow>
              (\<exists>a b. s_lat (?ss ! i) = JNumber (Finite a) \<and> s_lng (?ss ! i) = JNumber (Finite b)))
         \<and> (keep (?ss ! i) \<longleftrightarrow>
              ((\<exists>t a. own_prop (rs ! i) ''lat'' = JString t \<and> parseFloat env t = Finite a)
                 \<or> (\<exists>a. own_prop (rs ! i) ''lat'' = JNumber (Finite a)))
              \<and> ((\<exists>t b. own_prop (rs ! i) ''lng'' = JString t \<and> parseFloat env t = Finite b)
                 \<or> (\<exists>b. own_prop (rs ! i) ''lng'' = JNumber (Finite b))))
         \<and> (own_prop (rs ! i) ''lat'' = JUndefined \<or> own_prop (rs ! i) ''lng'' = JUndefined
               \<longrightarrow> \<not> keep (?ss ! i))"
  proof (intro allI impI)
    fix i assume i: "i < length rs"
    have e: "?ss ! i = ?n (rs ! i)" using i by simp
    show "(\<forall>t. own_prop (rs ! i) ''lat'' = JString t \<longrightarrow>
                 s_lat (?ss ! i) = JNumber (parseFloat env t))
         \<and> (\<forall>t. own_prop (rs ! i) ''lng'' = JString t \<longrightarrow>
                 s_lng (?ss ! i) = JNumber (parseFloat env t))
         \<and> ((\<forall>t. own_prop (rs ! i) ''lat'' \<noteq> JString t) \<longrightarrow>
                 s_lat (?ss ! i) = own_prop (rs ! i) ''lat'')
         \<and> ((\<forall>t. own_prop (rs ! i) ''lng'' \<noteq> JString t) \<longrightarrow>
                 s_lng (?ss ! i) = own_prop (rs ! i) ''lng'')
         \<and> (keep (?ss ! i) \<longleftrightarrow>
              (\<exists>a b. s_lat (?ss ! i) = JNumber (Finite a) \<and> s_lng (?ss ! i) = JNumber (Finite b)))
         \<and> (keep (?ss ! i) \<longleftrightarrow>
              ((\<exists>t a. own_prop (rs ! i) ''lat'' = JString t \<and> parseFloat env t = Finite a)
                 \<or> (\<exists>a. own_prop (rs ! i) ''lat'' = JNumber (Finite a)))
              \<and> ((\<exists>t b. own_prop (rs ! i) ''lng'' = JString t \<and> parseFloat env t = Finite b)
                 \<or> (\<exists>b. own_prop (rs ! i) ''lng'' = JNumber (Finite b))))
         \<and> (own_prop (rs ! i) ''lat'' = JUndefined \<or> own_prop (rs ! i) ''lng'' = JUndefined
               \<longrightarrow> \<not> keep (?ss ! i))"
      unfolding e
      using k[of "rs ! i"] u[of "rs ! i"] keep_iff[of "?n (rs ! i)"]
      by (simp add: coerce_other)
  qed
  have m: "\<forall>a pg e. JSON_parse env a = Some (JArray (map JObject rs)) \<and> a \<noteq> [] \<longrightarrow>
           (homeMap env (Some a) = Inr pg \<longrightarrow>
              map latlng (markers pg) = map coordinate (filter keep ?ss))
         \<and> (homeMap env (Some a) = Inl (e, pg) \<longrightarrow>
              (\<exists>k. map latlng (markers pg) = take k (map coordinate (filter keep ?ss))))"
  proof (intro allI impI)
    fix a pg e
    assume "JSON_parse env a = Some (JArray (map JObject rs)) \<and> a \<noteq> []"
    then have r: "readStores env (Some a) = (JArray (map JObject rs), [])"
      by (simp add: readStores_parsed)
    show "(homeMap env (Some a) = Inr pg \<longrightarrow>
              map latlng (markers pg) = map coordinate (filter keep ?ss))
         \<and> (homeMap env (Some a) = Inl (e, pg) \<longrightarrow>
              (\<exists>k. map latlng (markers pg) = take k (map coordinate (filter keep ?ss))))"
      by (rule homeMap_markers[OF r ns])
  qed
  have l: "length ?ss = length rs" by simp
  show ?thesis
    by (rule exI[of _ ?ss]) (intro conjI s l ns c m)
qed

theorem coordinates_coerced_and_filtered_witness:
  "own_prop store_s1 ''lat'' = JString ''15.4'' \<and> own_prop store_s1 ''lng'' = JString ''73.8''
   \<and> parseFloat example_env ''15.4'' = Finite 15.4 \<and> parseFloat example_env ''73.8'' = Finite 73.8
   \<and> own_prop store_s5 ''lat'' = JUndefined
   \<and> sequence_err (map (normalizeStore example_env) (map JObject [store_s1, store_s5]))
       = Inr [normal_s1, normal_s5]
   \<and> s_lat normal_s1 = JNumber (Finite 15.4) \<and> s_lng normal_s1 = JNumber (Finite 73.8)
   \<and> keep normal_s1 \<and> \<not> keep normal_s5
   \<and> normalizedStores example_env (JArray (map JObject [store_s1, store_s5])) = Inr [normal_s1]
   \<and> JSON_parse example_env one_store_json = Some (JArray (map JObject [store_s1]))
   \<and> (\<exists>pg. homeMap example_env (Some one_store_json) = Inr pg
          \<and> map latlng (markers pg) = [(JNumber (Finite 15.4), JNumber (Finite 73.8))])
   \<and> own_prop store_s3 ''lat'' = JString ''north'' \<and> parseFloat example_env ''north'' = NaN
   \<and> JSON_parse example_env mixed_stores_json = Some (JArray (map JObject [store_s2, store_s3]))
   \<and> normalizedStores example_env (JArray (map JObject [store_s2, store_s3])) = Inr [normal_s2]
   \<and> (\<exists>pg. homeMap example_env (Some mixed_stores_json) = Inr pg
          \<and> map latlng (markers pg) = [(JNumber (Finite 15.5), JNumber (Finite 73.9))])
   \<and> JSON_parse example_env numeric_name_json = Some (JArray (map JObject [store_s2, store_s4]))
   \<and> (\<exists>pg k. homeMap example_env (Some numeric_name_json) = Inl (TypeError, pg)
          \<and> map latlng (markers pg) =
               take k [(JNumber (Finite 15.5), JNumber (Finite 73.9)),
                       (JNumber (Finite 15.6), JNumber (Finite 73.7))])"
proof -
  have sq: "sequence_err (map (normalizeStore example_env) (map JObject [store_s1, store_s5]))
       = Inr [normal_s1, normal_s5]"
    by (simp add: normalize_s1 normalize_s5)
  obtain ss1 where ss1:
     "sequence_err (map (normalizeStore example_env) (map JObject [store_s1, store_s5])) = Inr ss1"
     "normalizedStores example_env (JArray (map JObject [store_s1, store_s5])) = Inr (filter keep ss1)"
     "\<forall>i<length [store_s1, store_s5].
           (\<forall>t. own_prop ([store_s1, store_s5] ! i) ''lat'' = JString t \<longrightarrow>
                 s_lat (ss1 ! i) = JNumber (parseFloat example_env t))
         \<and> (\<forall>t. own_prop ([store_s1, store_s5] ! i) ''lng'' = JString t \<longrightarrow>
                 s_lng (ss1 ! i) = JNumber (parseFloat example_env t))
         \<and> ((\<forall>t. own_prop ([store_s1, store_s5] ! i) ''lat'' \<noteq> JString t) \<longrightarrow>
                 s_lat (ss1 ! i) = own_prop ([store_s1, store_s5] ! i) ''lat'')
         \<and> ((\<forall>t. own_prop ([store_s1, store_s5] ! i) ''lng'' \<noteq> JString t) \<longrightarrow>
                 s_lng (ss1 ! i) = own_prop ([store_s1, store_s5] ! i) ''lng'')
         \<and> (keep (ss1 ! i) \<longleftrightarrow>
              (\<exists>a b. s_lat (ss1 ! i) = JNumber (Finite a) \<and> s_lng (ss1 ! i) = JNumber (Finite b)))
         \<and> (keep (ss1 ! i) \<longleftrightarrow>
              ((\<exists>t a. own_prop ([store_s1, store_s5] ! i) ''lat'' = JString t
                       \<and> parseFloat example_env t = Finite a)
                 \<or> (\<exists>a. own_prop ([store_s1, store_s5] ! i) ''lat'' = JNumber (Finite a)))
              \<and> ((\<exists>t b. own_prop ([store_s1, store_s5] ! i) ''lng'' = JString t
                       \<and> parseFloat example_env t = Finite b)
                 \<or> (\<exists>b. own_prop ([store_s1, store_s5] ! i) ''lng'' = JNumber (Finite b))))
         \<and> (own_prop ([store_s1, store_s5] ! i) ''lat'' = JUndefined
              \<or> own_prop ([store_s1, store_s5] ! i) ''lng'' = JUndefined
               \<longrightarrow> \<not> keep (ss1 ! i))"
    using coordinates_coerced_and_filtered[of example_env "[store_s1, store_s5]"] by blast
  have e1: "ss1 = [normal_s1, normal_s5]" using ss1(1) sq by simp
  have c0: "s_lat normal_s1 = JNumber (parseFloat example_env ''15.4'')
          \<and> s_lng normal_s1 = JNumber (parseFloat example_env ''73.8'')"
    using ss1(3)[rule_format, of 0] e1 raw_coordinates by simp
  then have c0': "s_lat normal_s1 = JNumber (Finite 15.4) \<and> s_lng normal_s1 = JNumber (Finite 73.8)"
    by (simp add: example_parseFloat)
  have z: "ss1 ! 0 = normal_s1" "ss1 ! 1 = normal_s5" using e1 by simp_all
  have l0: "0 < length [store_s1, store_s5]" by simp
  note x0 = ss1(3)[rule_format, OF l0]
  have h0: "keep (ss1 ! 0) \<longleftrightarrow>
      (\<exists>a b. s_lat (ss1 ! 0) = JNumber (Finite a) \<and> s_lng (ss1 ! 0) = JNumber (Finite b))"
    by (rule x0[THEN conjunct2, THEN conjunct2, THEN conjunct2, THEN conjunct2, THEN conjunct1])
  have ex: "\<exists>a b. s_lat (ss1 ! 0) = JNumber (Finite a) \<and> s_lng (ss1 ! 0) = JNumber (Finite b)"
    unfolding z by (intro exI[of _ "15.4"] exI[of _ "73.8"]) (rule c0')
  have k1: "keep normal_s1"
    using iffD2[OF h0 ex] z by simp
  have k5: "\<not> keep normal_s5"
    using ss1(3)[rule_format, of 1] e1 raw_coordinates by simp
  have n15: "normalizedStores example_env (JArray (map JObject [store_s1, store_s5])) = Inr [normal_s1]"
    using ss1(2) e1 k1 k5 by simp
  have ne1: "one_store_json \<noteq> []" by (simp add: one_store_json_def)
  have t1: "\<forall>st\<in>set [normal_s1]. text_fields st" by (simp add: text_s1)
  obtain pg1 where pg1: "homeMap example_env (Some one_store_json) = Inr pg1"
    using homeMap_text[OF read_one normalized_one t1] by auto
  obtain so where so: "normalizedStores example_env (JArray (map JObject [store_s1]))
        = Inr (filter keep so)"
     "\<forall>a pg e. JSON_parse example_env a = Some (JArray (map JObject [store_s1])) \<and> a \<noteq> [] \<longrightarrow>
           (homeMap example_env (Some a) = Inr pg \<longrightarrow>
              map latlng (markers pg) = map coordinate (filter keep so))
         \<and> (homeMap example_env (Some a) = Inl (e, pg) \<longrightarrow>
              (\<exists>k. map latlng (markers pg) = take k (map coordinate (filter keep so))))"
    using coordinates_coerced_and_filtered[of example_env "[store_s1]"] by blast
  have fo: "filter keep so = [normal_s1]" using so(1) normalized_one by simp
  have "map latlng (markers pg1) = map coordinate (filter keep so)"
    using so(2) parse_one ne1 pg1 by blast
  then have m1: "map latlng (markers pg1) = [(JNumber (Finite 15.4), JNumber (Finite 73.8))]"
    using fo by (simp add: coordinate_def normal_s1_def)
  have kept1: "\<exists>pg. homeMap example_env (Some one_store_json) = Inr pg
          \<and> map latlng (markers pg) = [(JNumber (Finite 15.4), JNumber (Finite 73.8))]"
    using pg1 m1 by (intro exI[of _ pg1] conjI)
  have ne: "mixed_stores_json \<noteq> []" by (simp add: mixed_stores_json_def)
  have r: "readStores example_env (Some mixed_stores_json)
             = (JArray (map JObject [store_s2, store_s3]), [])"
    using readStores_parsed[OF parse_mixed ne] .
  have t: "\<forall>st\<in>set [normal_s2]. text_fields st" by (simp add: text_s2)
  obtain pg where pg: "homeMap example_env (Some mixed_stores_json) = Inr pg"
    using homeMap_text[OF r normalized_mixed t] by auto
  obtain ss where ss: "normalizedStores example_env (JArray (map JObject [store_s2, store_s3]))
        = Inr (filter keep ss)"
     "\<forall>a pg e. JSON_parse example_env a = Some (JArray (map JObject [store_s2, store_s3])) \<and> a \<noteq> [] \<longrightarrow>
           (homeMap example_env (Some a) = Inr pg \<longrightarrow>
              map latlng (markers pg) = map coordinate (filter keep ss))
         \<and> (homeMap example_env (Some a) = Inl (e, pg) \<longrightarrow>
              (\<exists>k. map latlng (markers pg) = take k (map coordinate (filter keep ss))))"
    using coordinates_coerced_and_filtered[of example_env "[store_s2, store_s3]"] by blast
  have f: "filter keep ss = [normal_s2]" using ss(1) normalized_mixed by simp
  have "map latlng (markers pg) = map coordinate (filter keep ss)"
    using ss(2) parse_mixed ne pg by blast
  then have kept: "map latlng (markers pg) = [(JNumber (Finite 15.5), JNumber (Finite 73.9))]"
    using f by (simp add: coordinate_def normal_s2_def)
  have ne4: "numeric_name_json \<noteq> []" by (simp add: numeric_name_json_def)
  obtain pg4 where pg4: "homeMap example_env (Some numeric_name_json) = Inl (TypeError, pg4)"
    using numeric_name_throws by blast
  obtain ss4 where ss4: "normalizedStores example_env (JArray (map JObject [store_s2, store_s4]))
        = Inr (filter keep ss4)"
     "\<forall>a pg e. JSON_parse example_env a = Some (JArray (map JObject [store_s2, store_s4])) \<and> a \<noteq> [] \<longrightarrow>
           (homeMap example_env (Some a) = Inr pg \<longrightarrow>
              map latlng (markers pg) = map coordinate (filter keep ss4))
         \<and> (homeMap example_env (Some a) = Inl (e, pg) \<longrightarrow>
              (\<exists>k. map latlng (markers pg) = take k (map coordinate (filter keep ss4))))"
    using coordinates_coerced_and_filtered[of example_env "[store_s2, store_s4]"] by blast
  have f4: "filter keep ss4 = [normal_s2, normal_s4]"
    using ss4(1) normalized_numeric_name by simp
  have "\<exists>k. map latlng (markers pg4) = take k (map coordinate (filter keep ss4))"
    using ss4(2) parse_numeric_name ne4 pg4 by blast
  then obtain k where k: "map latlng (markers pg4) =
               take k [(JNumber (Finite 15.5), JNumber (Finite 73.9)),
                       (JNumber (Finite 15.6), JNumber (Finite 73.7))]"
    using f4 by (auto simp: coordinate_def normal_s2_def normal_s4_def)
  have thrown: "\<exists>pg k. homeMap example_env (Some numeric_name_json) = Inl (TypeError, pg)
          \<and> map latlng (markers pg) =
               take k [(JNumber (Finite 15.5), JNumber (Finite 73.9)),
                       (JNumber (Finite 15.6), JNumber (Finite 73.7))]"
    using pg4 k by (intro exI[of _ pg4] exI[of _ k] conjI)
  have kept': "\<exists>pg. homeMap example_env (Some mixed_stores_json) = Inr pg
          \<and> map latlng (markers pg) = [(JNumber (Finite 15.5), JNumber (Finite 73.9))]"
    using pg kept by (intro exI[of _ pg] conjI)
  show ?thesis
    using raw_coordinates example_parseFloat sq c0' k1 k5 n15 parse_one kept1
          parse_mixed normalized_mixed kept' parse_numeric_name thrown
    by (intro conjI) simp_all
qed

subsection \<open>The final view\<close>




subsection \<open>A dataset that is not an array\<close>

text \<open>
  Claim C2 at the contents it names beyond parse failures. When the attribute parses, but
  not to an array, \<open>stores.map\<close> is not a function: the script throws a TypeError outside
  its \<open>try\<close>, before the map exists, and neither a warning nor the empty state appears.
  (\<open>homeMap_unparsable\<close> and \<open>homeMap_absent\<close> above are the recoveries the script has.)
\<close>

theorem dataset_not_an_array_throws:
  assumes "JSON_parse env a = Some v" and "a \<noteq> []" and "\<forall>xs. v \<noteq> JArray xs"
  shows "homeMap env (Some a) =
           Inl (TypeError, \<lparr> warnings = [], map_view = None, markers = [], emptyState = None \<rparr>)"
  using homeMap_throws_early[OF readStores_parsed[OF assms(1,2)] normalizedStores_not_array[OF assms(3)]]
  by simp

theorem dataset_not_an_array_throws_witness:
  "JSON_parse example_env ''{}'' = Some (JObject [])
   \<and> homeMap example_env (Some ''{}'') =
       Inl (TypeError, \<lparr> warnings = [], map_view = None, markers = [], emptyState = None \<rparr>)"
proof -
  have p: "JSON_parse example_env ''{}'' = Some (JObject [])" by (simp add: example_env_def)
  show ?thesis using dataset_not_an_array_throws[OF p] p by simp
qed

subsection \<open>The popup of the example store\<close>

text \<open>
  Claim C1 at the example of the specification, the dataset with the one store named
  \<open><b>X</b>\<close>: the popup bound to its marker holds the name as markup, not escaped, and
  the icon holds the initial \<open><\<close> as it is. (\<open>escapeAttr_escapes\<close> above is what the
  image branch of the icon does with the same name.)
\<close>

theorem popup_shows_name_unescaped:
  \<open>homeMap example_env (Some one_store_json) =
     Inr \<lparr> warnings = [],
           map_view = Some (SetView (JNumber (Finite 15.4), JNumber (Finite 73.8)) 13),
           markers =
             [\<lparr> latlng = (JNumber (Finite 15.4), JNumber (Finite 73.8)),
                icon = \<lparr> className = ''map-pin leaflet-div-icon'',
                         html = ''<div class="map-pin__inner"><span><</span></div>'',
                         iconSize = (34, 44), iconAnchor = (17, 44), popupAnchor = (0, - 42) \<rparr>,
                popup = Some (''<div class="home-map-popup">\<newline>        <strong><b>X</b></strong><br />\<newline>        Goa<br />\<newline>        <a href="/store/s1" target="_blank" rel="noopener">Open store page</a>\<newline>      </div>'') \<rparr>],
           emptyState = None \<rparr>\<close>
proof -
  have i: \<open>buildStoreIcon example_env normal_s1 =
      Inr \<lparr> className = ''map-pin leaflet-div-icon'',
            html = ''<div class="map-pin__inner"><span><</span></div>'',
            iconSize = (34, 44), iconAnchor = (17, 44), popupAnchor = (0, - 42) \<rparr>\<close>
    by (simp add: buildStoreIcon_def normal_s1_def or_else_def trim_def is_space_def charAt0_def
        toUpperCase_def upper_char_def Let_def)
  have p: \<open>popupHtml example_env normal_s1 =
      Inr ''\<newline>      <div class="home-map-popup">\<newline>        <strong><b>X</b></strong><br />\<newline>        Goa<br />\<newline>        <a href="/store/s1" target="_blank" rel="noopener">Open store page</a>\<newline>      </div>\<newline>    ''\<close>
    by (simp add: popupHtml_def labelLocation_def normal_s1_def)
  have t: \<open>trim ''\<newline>      <div class="home-map-popup">\<newline>        <strong><b>X</b></strong><br />\<newline>        Goa<br />\<newline>        <a href="/store/s1" target="_blank" rel="noopener">Open store page</a>\<newline>      </div>\<newline>    ''
    = ''<div class="home-map-popup">\<newline>        <strong><b>X</b></strong><br />\<newline>        Goa<br />\<newline>        <a href="/store/s1" target="_blank" rel="noopener">Open store page</a>\<newline>      </div>''\<close>
    by (simp add: trim_def is_space_def)
  show ?thesis
    using homeMap_steps[OF read_one normalized_one] i p t
    by (simp add: Let_def coordinate_def GOA_CENTER_def DEFAULT_ZOOM_def) (simp add: normal_s1_def)
qed

section \<open>Properties of the sidebar\<close>

lemma openSidebar_fields:
  "mobileMenuToggle (openSidebar pg) = map_option (insert ''active'') (mobileMenuToggle pg)"
  "mobileSidebar (openSidebar pg) = map_option (insert ''active'') (mobileSidebar pg)"
  "sidebarOverlay (openSidebar pg) = map_option (insert ''active'') (sidebarOverlay pg)"
  "body_overflow (openSidebar pg) = ''hidden''"
  by (simp_all add: openSidebar_def Let_def)

lemma closeSidebar_fields:
  "mobileMenuToggle (closeSidebar pg) = map_option (\<lambda>cs. cs - {''active''}) (mobileMenuToggle pg)"
  "mobileSidebar (closeSidebar pg) = map_option (\<lambda>cs. cs - {''active''}) (mobileSidebar pg)"
  "sidebarOverlay (closeSidebar pg) = map_option (\<lambda>cs. cs - {''active''}) (sidebarOverlay pg)"
  "body_overflow (closeSidebar pg) = []"
  by (simp_all add: closeSidebar_def Let_def)

text \<open>
  Claim C8. After \<open>openSidebar\<close> every tracked element of the page has the class
  \<open>active\<close> and the body's overflow is \<open>hidden\<close>; after \<open>closeSidebar\<close> no tracked
  element has it and the overflow is reset. Each is one step of the page: on a page with
  the three elements all four effects are there together.
\<close>

theorem sidebar_open_close_complete:
  "(\<forall>cs. mobileMenuToggle (openSidebar pg) = Some cs \<longrightarrow> ''active'' \<in> cs)
   \<and> (\<forall>cs. mobileSidebar (openSidebar pg) = Some cs \<longrightarrow> ''active'' \<in> cs)
   \<and> (\<forall>cs. sidebarOverlay (openSidebar pg) = Some cs \<longrightarrow> ''active'' \<in> cs)
   \<and> body_overflow (openSidebar pg) = ''hidden''
   \<and> (\<forall>cs. mobileMenuToggle (closeSidebar pg) = Some cs \<longrightarrow> ''active'' \<notin> cs)
   \<and> (\<forall>cs. mobileSidebar (closeSidebar pg) = Some cs \<longrightarrow> ''active'' \<notin> cs)
   \<and> (\<forall>cs. sidebarOverlay (closeSidebar pg) = Some cs \<longrightarrow> ''active'' \<notin> cs)
   \<and> body_overflow (closeSidebar pg) = []
   \<and> (mobileMenuToggle pg \<noteq> None \<and> mobileSidebar pg \<noteq> None \<and> sidebarOverlay pg \<noteq> None \<longrightarrow>
        (\<exists>t p v. mobileMenuToggle (openSidebar pg) = Some t \<and> ''active'' \<in> t
               \<and> mobileSidebar (openSidebar pg) = Some p \<and> ''active'' \<in> p
               \<and> sidebarOverlay (openSidebar pg) = Some v \<and> ''active'' \<in> v)
      \<and> (\<exists>t p v. mobileMenuToggle (closeSidebar pg) = Some t \<and> ''active'' \<notin> t
               \<and> mobileSidebar (closeSidebar pg) = Some p \<and> ''active'' \<notin> p
               \<and> sidebarOverlay (closeSidebar pg) = Some v \<and> ''active'' \<notin> v))"
  by (auto simp: openSidebar_fields closeSidebar_fields)

theorem sidebar_open_close_complete_witness:
  "mobileMenuToggle example_sidebar \<noteq> None \<and> mobileSidebar example_sidebar \<noteq> None
   \<and> sidebarOverlay example_sidebar \<noteq> None
   \<and> openSidebar example_sidebar =
       \<lparr> mobileMenuToggle = Some {''active'', ''menu-toggle''},
         mobileSidebar = Some {''active'', ''sidebar''},
         sidebarOverlay = Some {''active''}, body_overflow = ''hidden'' \<rparr>
   \<and> closeSidebar (openSidebar example_sidebar) = example_sidebar"
  using sidebar_open_close_complete[of example_sidebar]
  by (auto simp: example_sidebar_def openSidebar_def closeSidebar_def Let_def)

text \<open>
  Claim C9. On a resize to a width above 768 with the sidebar open, the listener does what
  \<open>closeSidebar\<close> does: no tracked element keeps \<open>active\<close> and the overflow is reset.
  With the sidebar closed, or at a width of at most 768, the page stays as it is.
\<close>

theorem resize_closes_open_sidebar:
  "(sidebar_active pg \<and> 768 < w \<longrightarrow>
      onResize w pg = closeSidebar pg
      \<and> (\<forall>cs. mobileMenuToggle (onResize w pg) = Some cs \<longrightarrow> ''active'' \<notin> cs)
      \<and> (\<forall>cs. mobileSidebar (onResize w pg) = Some cs \<longrightarrow> ''active'' \<notin> cs)
      \<and> (\<forall>cs. sidebarOverlay (onResize w pg) = Some cs \<longrightarrow> ''active'' \<notin> cs)
      \<and> body_overflow (onResize w pg) = [])
   \<and> (\<not> sidebar_active pg \<or> w \<le> 768 \<longrightarrow> onResize w pg = pg)"
  by (auto simp: onResize_def closeSidebar_fields)

theorem resize_closes_open_sidebar_witness:
  "sidebar_active (openSidebar example_sidebar)
   \<and> onResize 1024 (openSidebar example_sidebar) = example_sidebar
   \<and> onResize 768 (openSidebar example_sidebar) = openSidebar example_sidebar
   \<and> \<not> sidebar_active example_sidebar
   \<and> onResize 1024 example_sidebar = example_sidebar"
  using resize_closes_open_sidebar[of "openSidebar example_sidebar" 1024]
        resize_closes_open_sidebar[of "openSidebar example_sidebar" 768]
        resize_closes_open_sidebar[of example_sidebar 1024]
  by (auto simp: example_sidebar_def openSidebar_def closeSidebar_def sidebar_active_def Let_def)

section \<open>Properties of the multi-step forms\<close>

subsection \<open>What \<open>setStep\<close> and the listeners change\<close>

lemma stepN_setStep: "stepN (setStep i f) = stepN f"
  by (simp add: setStep_def stepN_def Let_def)

lemma form_id_setStep: "form_id (setStep i f) = form_id f"
  by (simp add: setStep_def Let_def)

lemma activeIndex_setStep:
  "activeIndex (setStep i f) = (if i < 0 \<or> i \<ge> stepN f then activeIndex f else i)"
  by (simp add: setStep_def Let_def)

lemma setStep_rejected: "i < 0 \<or> i \<ge> stepN f \<Longrightarrow> setStep i f = f"
  by (simp add: setStep_def)

lemma dispatched_setStep:
  "dispatched (setStep i f) =
     (if i < 0 \<or> i \<ge> stepN f then dispatched f
      else dispatched f @ [stepchange_event (setStep i f)])"
  by (simp add: setStep_def Let_def stepchange_event_def)

lemma stepN_handle: "stepN (handle e f) = stepN f"
  by (cases e) (auto simp: clickHandler_def submitHandler_def stepN_setStep Let_def stepN_def[of "f\<lparr>steps := _\<rparr>"] stepN_def[of f] split: option.splits)

lemma form_id_handle: "form_id (handle e f) = form_id f"
  by (cases e) (auto simp: clickHandler_def submitHandler_def form_id_setStep Let_def split: option.splits)

lemma activeIndex_handle_range:
  "0 \<le> activeIndex f \<Longrightarrow> activeIndex f < stepN f \<Longrightarrow>
   0 \<le> activeIndex (handle e f) \<and> activeIndex (handle e f) < stepN f"
  by (cases e) (auto simp: clickHandler_def submitHandler_def activeIndex_setStep Let_def split: option.splits)

lemma run_inv:
  "0 \<le> activeIndex f \<Longrightarrow> activeIndex f < stepN f \<Longrightarrow>
   0 \<le> activeIndex (run es f) \<and> activeIndex (run es f) < stepN f \<and> stepN (run es f) = stepN f
   \<and> form_id (run es f) = form_id f"
proof (induction es arbitrary: f)
  case Nil
  then show ?case by simp
next
  case (Cons e es)
  have "0 \<le> activeIndex (handle e f) \<and> activeIndex (handle e f) < stepN (handle e f)"
    using activeIndex_handle_range[OF Cons.prems] by (simp add: stepN_handle)
  then show ?case using Cons.IH[of "handle e f"] by (simp add: stepN_handle form_id_handle)
qed

lemma run_snoc: "run (es @ [e]) f = handle e (run es f)"
  by (induction es arbitrary: f) simp_all

lemma init_props:
  "initMultiStepForm f = Some f0 \<Longrightarrow>
     activeIndex f0 = 0 \<and> 1 < stepN f0 \<and> stepN f0 = stepN f \<and> form_id f0 = form_id f
     \<and> dispatched f0 = dispatched f @ [stepchange_event f0]"
  by (auto simp: initMultiStepForm_def activeIndex_setStep stepN_setStep form_id_setStep dispatched_setStep stepN_def[of "f\<lparr>form_classes := _, activeIndex := _\<rparr>"] stepN_def[of f] split: if_splits)

lemma dispatched_handle:
  "dispatched (handle e g) =
     dispatched g @ (if activeIndex (handle e g) = activeIndex g then []
                     else [stepchange_event (handle e g)])"
  by (cases e)
     (auto simp: clickHandler_def submitHandler_def Let_def dispatched_setStep activeIndex_setStep
           split: option.splits)


lemma two_step_init: "initMultiStepForm (two_step_form cs) = Some (two_step_started cs)"
  by (simp add: initMultiStepForm_def two_step_form_def two_step_started_def setStep_def stepN_def
      Let_def toggle_def enumerate_eq_zip stepchange_event_def)

lemma two_step_next:
  "controls_loop cs \<Longrightarrow> activeIndex (clickHandler (Some ''next'') (two_step_started cs)) = 1"
  by (simp add: two_step_started_def clickHandler_def Let_def at_index_def validateStep_def
      activeIndex_setStep stepN_def)


lemma two_step_stepN: "stepN (two_step_form cs) = 2"
  by (simp add: stepN_def two_step_form_def)

subsection \<open>The step index stays in range\<close>

text \<open>
  Claim C3. A form with more than one step starts at index 0, and after every sequence of
  clicks, submissions and edits the index is in \<open>[0, N-1]\<close>, \<open>N\<close> the number of steps.
  \<open>setStep\<close> with a target outside that range, "next" on the last step and "prev" on
  step 0 return the form as it was: index, panels, indicators, buttons and events.
\<close>

theorem step_index_bounded:
  assumes "initMultiStepForm f = Some f0"
  shows "activeIndex f0 = 0
       \<and> 0 \<le> activeIndex (run es f0) \<and> activeIndex (run es f0) < stepN f
       \<and> stepN (run es f0) = stepN f
       \<and> (\<forall>i. i < 0 \<or> stepN f \<le> i \<longrightarrow> setStep i (run es f0) = run es f0)
       \<and> (activeIndex (run es f0) = stepN f - 1 \<longrightarrow>
            handle (Click (Some ''next'')) (run es f0) = run es f0)
       \<and> (activeIndex (run es f0) = 0 \<longrightarrow>
            handle (Click (Some ''prev'')) (run es f0) = run es f0)"
proof -
  from init_props[OF assms]
  have a0: "activeIndex f0 = 0" and n: "1 < stepN f0" and nn: "stepN f0 = stepN f"
    by simp_all
  have inv: "0 \<le> activeIndex (run es f0) \<and> activeIndex (run es f0) < stepN f0
             \<and> stepN (run es f0) = stepN f0"
    using run_inv[of f0 es] a0 n by simp
  have rej: "\<forall>i. i < 0 \<or> stepN f \<le> i \<longrightarrow> setStep i (run es f0) = run es f0"
    using inv nn by (simp add: setStep_rejected)
  have nxt: "activeIndex (run es f0) = stepN f - 1 \<longrightarrow>
            handle (Click (Some ''next'')) (run es f0) = run es f0"
    using inv nn by (simp add: clickHandler_def Let_def setStep_rejected)
  have prv: "activeIndex (run es f0) = 0 \<longrightarrow>
            handle (Click (Some ''prev'')) (run es f0) = run es f0"
    by (simp add: clickHandler_def setStep_rejected)
  show ?thesis using a0 inv nn rej nxt prv by simp
qed

theorem step_index_bounded_witness:
  "initMultiStepForm (two_step_form [\<lparr>reportValidity = Some True\<rparr>])
     = Some (two_step_started [\<lparr>reportValidity = Some True\<rparr>])
   \<and> activeIndex (two_step_started [\<lparr>reportValidity = Some True\<rparr>]) = 0
   \<and> activeIndex (run [Click (Some ''next'')] (two_step_started [\<lparr>reportValidity = Some True\<rparr>])) = 1
   \<and> handle (Click (Some ''next''))
        (run [Click (Some ''next'')] (two_step_started [\<lparr>reportValidity = Some True\<rparr>]))
      = run [Click (Some ''next'')] (two_step_started [\<lparr>reportValidity = Some True\<rparr>])
   \<and> handle (Click (Some ''prev'')) (run [] (two_step_started [\<lparr>reportValidity = Some True\<rparr>]))
      = run [] (two_step_started [\<lparr>reportValidity = Some True\<rparr>])
   \<and> setStep 2 (run [Click (Some ''next'')] (two_step_started [\<lparr>reportValidity = Some True\<rparr>]))
      = run [Click (Some ''next'')] (two_step_started [\<lparr>reportValidity = Some True\<rparr>])"
proof -
  let ?cs = "[\<lparr>reportValidity = Some True\<rparr>]"
  have i: "initMultiStepForm (two_step_form ?cs) = Some (two_step_started ?cs)"
    by (rule two_step_init)
  have a: "activeIndex (run [Click (Some ''next'')] (two_step_started ?cs)) = 1"
    by (simp add: two_step_next)
  have a0: "activeIndex (run [] (two_step_started ?cs)) = 0"
    by (simp add: two_step_started_def)
  show ?thesis
    using step_index_bounded[OF i, of "[Click (Some ''next'')]"]
          step_index_bounded[OF i, of "[]"] i a a0
    by (simp add: two_step_stepN)
qed

subsection \<open>One event for each transition\<close>

text \<open>
  Claim C7. The initial application of step 0 appends exactly one \<open>amcho:stepchange\<close>
  event to what the window was given, with the form's identifier and \<open>stepIndex\<close> 0.
  Every later click, submission or edit either leaves the index and the events as they
  were, or changes the index and appends exactly one such event whose \<open>stepIndex\<close> is
  the new index. A rejected \<open>setStep\<close> appends nothing.
\<close>

theorem stepchange_once_per_transition:
  assumes "initMultiStepForm f = Some f0"
  shows "(\<exists>ev. dispatched f0 = dispatched f @ [ev] \<and> event_type ev = ''amcho:stepchange''
             \<and> formId ev = (if form_id f = [] then None else Some (form_id f))
             \<and> stepIndex ev = 0 \<and> activeIndex f0 = 0)
       \<and> ((activeIndex (handle e (run es f0)) = activeIndex (run es f0)
            \<and> dispatched (handle e (run es f0)) = dispatched (run es f0))
          \<or> (activeIndex (handle e (run es f0)) \<noteq> activeIndex (run es f0)
            \<and> (\<exists>ev. dispatched (handle e (run es f0)) = dispatched (run es f0) @ [ev]
                  \<and> event_type ev = ''amcho:stepchange''
                  \<and> formId ev = (if form_id f = [] then None else Some (form_id f))
                  \<and> stepIndex ev = activeIndex (handle e (run es f0)))))
       \<and> (\<forall>i. i < 0 \<or> stepN f \<le> i \<longrightarrow> dispatched (setStep i (run es f0)) = dispatched (run es f0))"
proof -
  from init_props[OF assms]
  have a0: "activeIndex f0 = 0" and n: "1 < stepN f0" and nn: "stepN f0 = stepN f"
    and fid: "form_id f0 = form_id f" and d0: "dispatched f0 = dispatched f @ [stepchange_event f0]"
    by simp_all
  have inv: "stepN (run es f0) = stepN f0 \<and> form_id (run es f0) = form_id f0"
    using run_inv[of f0 es] a0 n by simp
  have p1: "\<exists>ev. dispatched f0 = dispatched f @ [ev] \<and> event_type ev = ''amcho:stepchange''
             \<and> formId ev = (if form_id f = [] then None else Some (form_id f))
             \<and> stepIndex ev = 0 \<and> activeIndex f0 = 0"
    using d0 a0 fid by (intro exI[of _ "stepchange_event f0"]) (simp add: stepchange_event_def)
  have ev: "event_type (stepchange_event (handle e (run es f0))) = ''amcho:stepchange''
          \<and> formId (stepchange_event (handle e (run es f0))) = (if form_id f = [] then None else Some (form_id f))
          \<and> stepIndex (stepchange_event (handle e (run es f0))) = activeIndex (handle e (run es f0))"
    using inv fid by (simp add: stepchange_event_def form_id_handle)
  have p2: "(activeIndex (handle e (run es f0)) = activeIndex (run es f0)
            \<and> dispatched (handle e (run es f0)) = dispatched (run es f0))
          \<or> (activeIndex (handle e (run es f0)) \<noteq> activeIndex (run es f0)
            \<and> (\<exists>ev. dispatched (handle e (run es f0)) = dispatched (run es f0) @ [ev]
                  \<and> event_type ev = ''amcho:stepchange''
                  \<and> formId ev = (if form_id f = [] then None else Some (form_id f))
                  \<and> stepIndex ev = activeIndex (handle e (run es f0))))"
  proof (cases "activeIndex (handle e (run es f0)) = activeIndex (run es f0)")
    case True
    then show ?thesis using dispatched_handle[of e "run es f0"] by simp
  next
    case False
    then have "dispatched (handle e (run es f0)) =
                 dispatched (run es f0) @ [stepchange_event (handle e (run es f0))]"
      using dispatched_handle[of e "run es f0"] by simp
    then show ?thesis using False ev by blast
  qed
  have p3: "\<forall>i. i < 0 \<or> stepN f \<le> i \<longrightarrow> dispatched (setStep i (run es f0)) = dispatched (run es f0)"
    using inv nn by (simp add: setStep_rejected)
  show ?thesis using p1 p2 p3 by blast
qed

theorem stepchange_once_per_transition_witness:
  "initMultiStepForm (two_step_form [\<lparr>reportValidity = Some True\<rparr>])
     = Some (two_step_started [\<lparr>reportValidity = Some True\<rparr>])
   \<and> (\<exists>ev. dispatched (handle (Click (Some ''next'')) (two_step_started [\<lparr>reportValidity = Some True\<rparr>]))
             = dispatched (two_step_started [\<lparr>reportValidity = Some True\<rparr>]) @ [ev]
           \<and> formId ev = Some ''signup'' \<and> stepIndex ev = 1)
   \<and> dispatched (handle (Click (Some ''prev'')) (two_step_started [\<lparr>reportValidity = Some True\<rparr>]))
       = dispatched (two_step_started [\<lparr>reportValidity = Some True\<rparr>])
   \<and> dispatched (setStep 2 (two_step_started [\<lparr>reportValidity = Some True\<rparr>]))
       = dispatched (two_step_started [\<lparr>reportValidity = Some True\<rparr>])"
proof -
  let ?cs = "[\<lparr>reportValidity = Some True\<rparr>]"
  have i: "initMultiStepForm (two_step_form ?cs) = Some (two_step_started ?cs)"
    by (rule two_step_init)
  have a: "activeIndex (handle (Click (Some ''next'')) (two_step_started ?cs)) = 1"
    by (simp add: two_step_next)
  have a0: "activeIndex (two_step_started ?cs) = 0"
    by (simp add: two_step_started_def)
  have p: "activeIndex (handle (Click (Some ''prev'')) (two_step_started ?cs)) = 0"
    by (simp add: clickHandler_def activeIndex_setStep two_step_started_def)
  have fid: "form_id (two_step_form ?cs) = ''signup''" by (simp add: two_step_form_def)
  show ?thesis
    using stepchange_once_per_transition[OF i, of "Click (Some ''next'')" "[]"]
          stepchange_once_per_transition[OF i, of "Click (Some ''prev'')" "[]"] i a a0 p fid
    by (simp add: two_step_stepN) blast
qed

subsection \<open>The payload of the event\<close>

lemma run_log:
  "\<exists>evs. dispatched (run es g) = dispatched g @ evs
      \<and> (\<forall>ev\<in>set evs. stepNumber ev = stepIndex ev + 1 \<and> event_type ev = ''amcho:stepchange''
             \<and> formId ev = (if form_id g = [] then None else Some (form_id g)))
      \<and> (evs \<noteq> [] \<longrightarrow> stepIndex (last evs) = activeIndex (run es g))
      \<and> (evs = [] \<longrightarrow> activeIndex (run es g) = activeIndex g)"
proof (induction es rule: rev_induct)
  case Nil
  then show ?case by simp
next
  case (snoc e es)
  then obtain evs where h: "dispatched (run es g) = dispatched g @ evs"
     "\<forall>ev\<in>set evs. stepNumber ev = stepIndex ev + 1 \<and> event_type ev = ''amcho:stepchange''
             \<and> formId ev = (if form_id g = [] then None else Some (form_id g))"
     "evs \<noteq> [] \<longrightarrow> stepIndex (last evs) = activeIndex (run es g)"
     "evs = [] \<longrightarrow> activeIndex (run es g) = activeIndex g"
    by blast
  have fid: "form_id (handle e (run es g)) = form_id g"
    by (induction es arbitrary: g) (simp_all add: form_id_handle)
  let ?g' = "handle e (run es g)"
  show ?case
  proof (cases "activeIndex ?g' = activeIndex (run es g)")
    case True
    then have "dispatched ?g' = dispatched g @ evs"
      using dispatched_handle[of e "run es g"] h(1) by simp
    then show ?thesis using h True by (intro exI[of _ evs]) (simp add: run_snoc)
  next
    case False
    then have "dispatched ?g' = dispatched g @ (evs @ [stepchange_event ?g'])"
      using dispatched_handle[of e "run es g"] h(1) by simp
    then show ?thesis using h(2) fid
      by (intro exI[of _ "evs @ [stepchange_event ?g']"]) (auto simp: run_snoc stepchange_event_def)
  qed
qed

text \<open>
  Claim C10. The events a form has dispatched since its initialisation are not empty; in
  each of them \<open>stepNumber = stepIndex + 1\<close> and \<open>formId\<close> is the form's id, or null
  when it has none; and the last of them carries the index that is active now. As this
  holds after every sequence of events, each event carried the index active when it was
  dispatched.
\<close>

theorem stepchange_payload:
  assumes "initMultiStepForm f = Some f0"
  shows "\<exists>evs. dispatched (run es f0) = dispatched f @ evs \<and> evs \<noteq> []
      \<and> (\<forall>ev\<in>set evs. stepNumber ev = stepIndex ev + 1
             \<and> formId ev = (if form_id f = [] then None else Some (form_id f)))
      \<and> stepIndex (last evs) = activeIndex (run es f0)"
proof -
  from init_props[OF assms]
  have a0: "activeIndex f0 = 0"
    and fid: "form_id f0 = form_id f" and d0: "dispatched f0 = dispatched f @ [stepchange_event f0]"
    by simp_all
  obtain evs where h: "dispatched (run es f0) = dispatched f0 @ evs"
     "\<forall>ev\<in>set evs. stepNumber ev = stepIndex ev + 1 \<and> event_type ev = ''amcho:stepchange''
             \<and> formId ev = (if form_id f0 = [] then None else Some (form_id f0))"
     "evs \<noteq> [] \<longrightarrow> stepIndex (last evs) = activeIndex (run es f0)"
     "evs = [] \<longrightarrow> activeIndex (run es f0) = activeIndex f0"
    using run_log[of es f0] by blast
  have "dispatched (run es f0) = dispatched f @ (stepchange_event f0 # evs)"
    using h(1) d0 by simp
  moreover have "\<forall>ev\<in>set (stepchange_event f0 # evs). stepNumber ev = stepIndex ev + 1
             \<and> formId ev = (if form_id f = [] then None else Some (form_id f))"
    using h(2) fid by (auto simp: stepchange_event_def)
  moreover have "stepIndex (last (stepchange_event f0 # evs)) = activeIndex (run es f0)"
    using h(3) h(4) a0 by (cases "evs = []") (simp_all add: stepchange_event_def)
  ultimately show ?thesis by (intro exI[of _ "stepchange_event f0 # evs"]) simp
qed

theorem stepchange_payload_witness:
  "initMultiStepForm (two_step_form [\<lparr>reportValidity = Some True\<rparr>])
     = Some (two_step_started [\<lparr>reportValidity = Some True\<rparr>])
   \<and> dispatched (run [Click (Some ''next'')] (two_step_started [\<lparr>reportValidity = Some True\<rparr>]))
     = [\<lparr> event_type = ''amcho:stepchange'', formId = Some ''signup'', stepIndex = 0, stepNumber = 1 \<rparr>,
        \<lparr> event_type = ''amcho:stepchange'', formId = Some ''signup'', stepIndex = 1, stepNumber = 2 \<rparr>]"
proof -
  let ?cs = "[\<lparr>reportValidity = Some True\<rparr>]"
  have i: "initMultiStepForm (two_step_form ?cs) = Some (two_step_started ?cs)"
    by (rule two_step_init)
  have d: "dispatched (run [Click (Some ''next'')] (two_step_started ?cs))
     = [\<lparr> event_type = ''amcho:stepchange'', formId = Some ''signup'', stepIndex = 0, stepNumber = 1 \<rparr>,
        \<lparr> event_type = ''amcho:stepchange'', formId = Some ''signup'', stepIndex = 1, stepNumber = 2 \<rparr>]"
    by (simp add: two_step_started_def clickHandler_def Let_def at_index_def validateStep_def
      dispatched_setStep activeIndex_setStep form_id_setStep stepN_def stepchange_event_def)
  show ?thesis
    using stepchange_payload[OF i, of "[Click (Some ''next'')]"] i d by simp
qed

subsection \<open>Validation before "next"\<close>




end
